theory Spec2Isabelle
  imports Complex_Main "HOL-Library.Product_Lexorder" "HOL-Library.Sublist" "HOL-Library.Multiset"
begin

section \<open>Data model\<close>

text \<open>
  The program (\<^verbatim>\<open>app.py\<close>) keeps each price series in a pandas DataFrame. A frame is
  modelled row by row: the column labels in order, and every row as its index label
  together with its cells in column order. Labels may repeat, as they can in pandas once
  the headers have been stripped.

  A timestamp is a calendar day with a time of day; its order is the lexicographic order
  of (year, month, day, time of day). \<open>NaT\<close> is the missing timestamp. A cell is a piece
  of text, a number, the missing number \<open>NaN\<close>, or a value of a datetime column.
  Strings are sequences of characters with code points below 256.
\<close>

datatype timestamp = Timestamp (year: int) (month: nat) (day: nat) (time_of_day: nat)

datatype datetime = NaT | Stamp timestamp

datatype cell = Text string | Number real | NaN | Datetime datetime

record frame =
  columns :: "string list"
  rows :: "(nat \<times> cell list) list"

text \<open>\<^verbatim>\<open>datetime.date\<close>, the type of the two ends of a date range.\<close>

datatype date = Date int nat nat

text \<open>The Python exceptions that the two functions can meet.\<close>

datatype error = FileError | IndexError | KeyError | ValueError | TypeError | AttributeError

definition bind :: "error + 'a \<Rightarrow> ('a \<Rightarrow> error + 'b) \<Rightarrow> error + 'b" where
  "bind x f = (case x of Inl e \<Rightarrow> Inl e | Inr v \<Rightarrow> f v)"

subsection \<open>Order of timestamps\<close>

definition ts_key :: "timestamp \<Rightarrow> int \<times> nat \<times> nat \<times> nat" where
  "ts_key t = (year t, month t, day t, time_of_day t)"

text \<open>
  The key \<^verbatim>\<open>sort_values\<close> orders a datetime column by: ascending, missing values
  last (\<^verbatim>\<open>na_position='last'\<close>).
\<close>

definition datetime_key :: "datetime \<Rightarrow> bool \<times> int \<times> nat \<times> nat \<times> nat" where
  "datetime_key d = (case d of NaT \<Rightarrow> (True, 0, 0, 0, 0) | Stamp t \<Rightarrow> (False, ts_key t))"

text \<open>\<^verbatim>\<open>pd.to_datetime\<close> of a \<^verbatim>\<open>datetime.date\<close>: midnight of that day.\<close>

definition to_timestamp :: "date \<Rightarrow> timestamp" where
  "to_timestamp d = (case d of Date y m dd \<Rightarrow> Timestamp y m dd 0)"

text \<open>The order of \<^verbatim>\<open>datetime.date\<close> values.\<close>

definition date_less :: "date \<Rightarrow> date \<Rightarrow> bool" where
  "date_less a b = (case a of Date y m d \<Rightarrow> (case b of Date y' m' d' \<Rightarrow> (y, m, d) < (y', m', d')))"

text \<open>
  Comparing a datetime column with a timestamp, cell by cell: a comparison with \<open>NaT\<close>
  is false.
\<close>

definition ge_timestamp :: "datetime \<Rightarrow> timestamp \<Rightarrow> bool" where
  "ge_timestamp d s = (case d of NaT \<Rightarrow> False | Stamp t \<Rightarrow> ts_key s \<le> ts_key t)"

definition le_timestamp :: "datetime \<Rightarrow> timestamp \<Rightarrow> bool" where
  "le_timestamp d s = (case d of NaT \<Rightarrow> False | Stamp t \<Rightarrow> ts_key t \<le> ts_key s)"

text \<open>
  \<^verbatim>\<open>.dt.month\<close> and \<^verbatim>\<open>.dt.year\<close> compared with a number: the field of \<open>NaT\<close> is
  missing and equals nothing.
\<close>

definition month_is :: "datetime \<Rightarrow> nat \<Rightarrow> bool" where
  "month_is d n = (case d of NaT \<Rightarrow> False | Stamp t \<Rightarrow> month t = n)"

definition year_is :: "datetime \<Rightarrow> int \<Rightarrow> bool" where
  "year_is d n = (case d of NaT \<Rightarrow> False | Stamp t \<Rightarrow> year t = n)"

subsection \<open>Strings\<close>

text \<open>
  \<^verbatim>\<open>str.lower\<close> and \<^verbatim>\<open>str.strip\<close>. A character is a code point below 256. The
  letters that \<^verbatim>\<open>lower\<close> changes into the letters of \<^verbatim>\<open>date\<close>, of \<^verbatim>\<open>price\<close> or of
  a month name are the ASCII capitals, so only these are mapped. \<^verbatim>\<open>strip\<close> removes the
  characters that \<^verbatim>\<open>str.isspace\<close> accepts: 0x09 to 0x0D, 0x1C to 0x1F, the space, 0x85 and
  0xA0.
\<close>

definition lower_char :: "char \<Rightarrow> char" where
  "lower_char c =
     (case map_of (zip ''ABCDEFGHIJKLMNOPQRSTUVWXYZ'' ''abcdefghijklmnopqrstuvwxyz'') c of
        Some l \<Rightarrow> l
      | None \<Rightarrow> c)"

definition lower :: "string \<Rightarrow> string" where
  "lower s = map lower_char s"

definition is_space :: "char \<Rightarrow> bool" where
  "is_space c = (c \<in> set [CHR '' '', CHR 0x09, CHR 0x0A, CHR 0x0B, CHR 0x0C, CHR 0x0D,
                            CHR 0x1C, CHR 0x1D, CHR 0x1E, CHR 0x1F, CHR 0x85, CHR 0xA0])"

definition strip :: "string \<Rightarrow> string" where
  "strip s = rev (dropWhile is_space (rev (dropWhile is_space s)))"

text \<open>
  \<^verbatim>\<open>int(s)\<close> on a string: surrounding whitespace is dropped, one sign is allowed, then
  decimal digits, where single underscores may stand between two digits. \<open>None\<close> is the
  \<^verbatim>\<open>ValueError\<close>. The whitespace of \<^verbatim>\<open>int\<close> is not that of \<^verbatim>\<open>strip\<close>: it is 0x09
  to 0x0D, the space, 0x85 and 0xA0; the separators 0x1C to 0x1F are refused. A string of
  more than 4300 digits is refused as well, as interpreters do since version 3.11 (the
  default of \<^verbatim>\<open>sys.set_int_max_str_digits\<close>).
\<close>

definition is_int_space :: "char \<Rightarrow> bool" where
  "is_int_space c = (c \<in> set [CHR '' '', CHR 0x09, CHR 0x0A, CHR 0x0B, CHR 0x0C, CHR 0x0D,
                                CHR 0x85, CHR 0xA0])"

definition digit_val :: "char \<Rightarrow> int option" where
  "digit_val c = map_of (zip ''0123456789'' [0, 1, 2, 3, 4, 5, 6, 7, 8, 9]) c"

fun int_digits :: "int \<Rightarrow> string \<Rightarrow> int option" where
  "int_digits acc [] = Some acc"
| "int_digits acc [c] =
     (case digit_val c of None \<Rightarrow> None | Some v \<Rightarrow> Some (10 * acc + v))"
| "int_digits acc (c # d # ds) =
     (if c = CHR ''_'' then
        (case digit_val d of None \<Rightarrow> None | Some v \<Rightarrow> int_digits (10 * acc + v) ds)
      else
        (case digit_val c of None \<Rightarrow> None | Some v \<Rightarrow> int_digits (10 * acc + v) (d # ds)))"

definition unsigned_int :: "string \<Rightarrow> int option" where
  "unsigned_int s =
     (case s of
        [] \<Rightarrow> None
      | c # cs \<Rightarrow>
          (if 4300 < length (filter (\<lambda>d. d \<noteq> CHR ''_'') s) then None
           else (case digit_val c of None \<Rightarrow> None | Some v \<Rightarrow> int_digits v cs)))"

definition py_int :: "string \<Rightarrow> int option" where
  "py_int s =
     (case rev (dropWhile is_int_space (rev (dropWhile is_int_space s))) of
        [] \<Rightarrow> None
      | c # cs \<Rightarrow>
          (if c = CHR ''-'' then map_option uminus (unsigned_int cs)
           else if c = CHR ''+'' then unsigned_int cs
           else unsigned_int (c # cs)))"

text \<open>
  \<^verbatim>\<open>datetime.strptime(s, "%B").month\<close>: the whole string must be the full name of a
  month, in any letter case (English month names). \<open>None\<close> is the \<^verbatim>\<open>ValueError\<close>.
\<close>

definition month_names :: "string list" where
  "month_names = [''January'', ''February'', ''March'', ''April'', ''May'', ''June'',
                  ''July'', ''August'', ''September'', ''October'', ''November'', ''December'']"

fun find_month :: "string \<Rightarrow> string list \<Rightarrow> nat \<Rightarrow> nat option" where
  "find_month s [] k = None"
| "find_month s (n # ns) k = (if lower n = lower s then Some k else find_month s ns (Suc k))"

definition strptime_month :: "string \<Rightarrow> nat option" where
  "strptime_month s = find_month s month_names 1"

section \<open>Frames\<close>

text \<open>The positions at which a label stands among the column labels.\<close>

definition positions :: "string \<Rightarrow> string list \<Rightarrow> nat list" where
  "positions l cs = filter (\<lambda>j. cs ! j = l) [0..<length cs]"

definition is_datetime :: "cell \<Rightarrow> bool" where
  "is_datetime c = (case c of Datetime d \<Rightarrow> True | _ \<Rightarrow> False)"

definition cell_datetime :: "cell \<Rightarrow> datetime" where
  "cell_datetime c = (case c of Datetime d \<Rightarrow> d | _ \<Rightarrow> NaT)"

text \<open>
  \<^verbatim>\<open>df['date']\<close> used as a datetime column, as both functions use it: the position of
  the column. The label must exist (\<^verbatim>\<open>KeyError\<close> otherwise) and be the label of one column
  only (with several, \<^verbatim>\<open>df['date']\<close> is a frame, which has no \<^verbatim>\<open>.dt\<close> and which
  \<^verbatim>\<open>sort_values\<close> refuses), and the column must hold datetime values (a comparison with a
  timestamp and \<^verbatim>\<open>.dt\<close> fail on any other column).
\<close>

definition date_position :: "frame \<Rightarrow> error + nat" where
  "date_position df =
     (case positions ''date'' (columns df) of
        [] \<Rightarrow> Inl KeyError
      | [j] \<Rightarrow>
          (if \<forall>r \<in> set (rows df). j < length (snd r) \<and> is_datetime (snd r ! j)
           then Inr j else Inl TypeError)
      | _ \<Rightarrow> Inl ValueError)"

text \<open>The datetime value of a row in the column at position \<open>j\<close>.\<close>

definition row_date :: "nat \<Rightarrow> nat \<times> cell list \<Rightarrow> datetime" where
  "row_date j r = cell_datetime (snd r ! j)"

text \<open>
  \<^verbatim>\<open>df[mask]\<close> with a boolean mask computed row by row from the row itself: a new frame
  with the rows at which the mask is true, in their order and with their index labels.
\<close>

definition select_rows :: "(nat \<times> cell list \<Rightarrow> bool) \<Rightarrow> frame \<Rightarrow> frame" where
  "select_rows p df = df\<lparr>rows := filter p (rows df)\<rparr>"

section \<open>The filter engine: \<^verbatim>\<open>filter_data\<close>\<close>

text \<open>
  The three steps of \<^verbatim>\<open>filter_data\<close>, each with its guard. A date range is \<open>None\<close> or a
  pair of dates; the month and the year are \<open>None\<close> or a string, and the empty string and
  \<^verbatim>\<open>"All"\<close> leave the filter off, as \<^verbatim>\<open>if month_filter and month_filter != "All"\<close>
  does.
\<close>

definition active :: "string option \<Rightarrow> bool" where
  "active sel = (case sel of None \<Rightarrow> False | Some s \<Rightarrow> s \<noteq> [] \<and> s \<noteq> ''All'')"

definition filter_date_range :: "(date \<times> date) option \<Rightarrow> frame \<Rightarrow> error + frame" where
  "filter_date_range date_range df =
     (case date_range of
        None \<Rightarrow> Inr df
      | Some (a, b) \<Rightarrow>
          bind (date_position df) (\<lambda>j.
            Inr (select_rows (\<lambda>r. ge_timestamp (row_date j r) (to_timestamp a)
                                  \<and> le_timestamp (row_date j r) (to_timestamp b)) df)))"

definition filter_month :: "string option \<Rightarrow> frame \<Rightarrow> error + frame" where
  "filter_month month_filter df =
     (if active month_filter then
        (case strptime_month (the month_filter) of
           None \<Rightarrow> Inl ValueError
         | Some month_num \<Rightarrow>
             bind (date_position df) (\<lambda>j.
               Inr (select_rows (\<lambda>r. month_is (row_date j r) month_num) df)))
      else Inr df)"

definition filter_year :: "string option \<Rightarrow> frame \<Rightarrow> error + frame" where
  "filter_year year_filter df =
     (if active year_filter then
        bind (date_position df) (\<lambda>j.
          (case py_int (the year_filter) of
             None \<Rightarrow> Inl ValueError
           | Some y \<Rightarrow> Inr (select_rows (\<lambda>r. year_is (row_date j r) y) df)))
      else Inr df)"

definition filter_data ::
  "frame \<Rightarrow> (date \<times> date) option \<Rightarrow> string option \<Rightarrow> string option \<Rightarrow> error + frame" where
  "filter_data df date_range month_filter year_filter =
     bind (filter_date_range date_range df) (\<lambda>df1.
       bind (filter_month month_filter df1) (\<lambda>df2.
         filter_year year_filter df2))"

section \<open>The loader: \<^verbatim>\<open>load_and_process_data\<close>\<close>

text \<open>
  The files on disk, as \<^verbatim>\<open>os.path.exists\<close> and \<^verbatim>\<open>pd.read_csv\<close> see them: a path that
  exists gives either the exception that \<^verbatim>\<open>read_csv\<close> raises on it or the frame that
  \<^verbatim>\<open>read_csv\<close> returns.
\<close>

type_synonym filesystem = "string \<rightharpoonup> (error + frame)"

text \<open>The values of the column at position \<open>j\<close> (a Series).\<close>

definition column :: "nat \<Rightarrow> frame \<Rightarrow> cell list" where
  "column j df = map (\<lambda>r. snd r ! j) (rows df)"

text \<open>
  \<^verbatim>\<open>pd.to_datetime(series, dayfirst=True)\<close>. How pandas reads one value is a parameter:
  \<open>parse s c\<close> is the datetime read from the cell \<open>c\<close> of the series \<open>s\<close> (pandas may
  choose the format from the whole series), or \<open>None\<close> when the cell cannot be read. One
  unreadable cell makes the whole call raise.
\<close>

definition to_datetime ::
  "(cell list \<Rightarrow> cell \<Rightarrow> datetime option) \<Rightarrow> cell list \<Rightarrow> error + cell list" where
  "to_datetime parse s =
     (if \<forall>c \<in> set s. parse s c \<noteq> None
      then Inr (map (\<lambda>c. Datetime (the (parse s c))) s)
      else Inl ValueError)"

text \<open>
  \<^verbatim>\<open>pd.to_numeric(series, errors='coerce')\<close>. Which number pandas reads from one value
  is a parameter: \<open>coerce c\<close> is the number, or \<open>None\<close> when the cell cannot be coerced;
  such a cell becomes \<open>NaN\<close>.
\<close>

definition coerced :: "(cell \<Rightarrow> real option) \<Rightarrow> cell \<Rightarrow> cell" where
  "coerced coerce c = (case coerce c of None \<Rightarrow> NaN | Some v \<Rightarrow> Number v)"

definition to_numeric :: "(cell \<Rightarrow> real option) \<Rightarrow> cell list \<Rightarrow> cell list" where
  "to_numeric coerce s = map (coerced coerce) s"

text \<open>
  \<^verbatim>\<open>df[label] = series\<close>: every column with that label takes the values; a label that
  is new becomes the last column.
\<close>

definition set_cells :: "string list \<Rightarrow> string \<Rightarrow> cell \<Rightarrow> cell list \<Rightarrow> cell list" where
  "set_cells cs l v r =
     (if l \<in> set cs then map (\<lambda>(n, c). if n = l then v else c) (zip cs r) else r @ [v])"

definition setitem :: "frame \<Rightarrow> string \<Rightarrow> cell list \<Rightarrow> frame" where
  "setitem df l vs =
     \<lparr>columns = (if l \<in> set (columns df) then columns df else columns df @ [l]),
      rows = map (\<lambda>(r, v). (fst r, set_cells (columns df) l v (snd r))) (zip (rows df) vs)\<rparr>"

text \<open>\<^verbatim>\<open>df.drop(columns=[label])\<close>: every column with that label goes.\<close>

definition drop_columns :: "frame \<Rightarrow> string \<Rightarrow> frame" where
  "drop_columns df l =
     \<lparr>columns = filter (\<lambda>n. n \<noteq> l) (columns df),
      rows = map (\<lambda>r. (fst r, map snd (filter (\<lambda>(n, c). n \<noteq> l) (zip (columns df) (snd r)))))
               (rows df)\<rparr>"

text \<open>\<^verbatim>\<open>df.columns = df.columns.str.strip()\<close>\<close>

definition strip_columns :: "frame \<Rightarrow> frame" where
  "strip_columns df = df\<lparr>columns := map strip (columns df)\<rparr>"

text \<open>
  Lines 27 to 33. \<^verbatim>\<open>df[date_col[0]]\<close> is a Series when the label stands once; when it
  stands several times it is a frame, on which \<^verbatim>\<open>to_datetime\<close> raises. Without a
  column, \<^verbatim>\<open>df.iloc[:, 0]\<close> raises.
\<close>

definition normalize_date ::
  "(cell list \<Rightarrow> cell \<Rightarrow> datetime option) \<Rightarrow> frame \<Rightarrow> error + frame" where
  "normalize_date parse df =
     (case filter (\<lambda>col. lower col = ''date'') (columns df) of
        d # _ \<Rightarrow>
          (case positions d (columns df) of
             [j] \<Rightarrow>
               bind (to_datetime parse (column j df)) (\<lambda>s.
                 let df' = setitem df ''date'' s
                 in Inr (if d \<noteq> ''date'' then drop_columns df' d else df'))
           | _ \<Rightarrow> Inl ValueError)
      | [] \<Rightarrow>
          (if columns df = [] then Inl IndexError
           else bind (to_datetime parse (column 0 df)) (\<lambda>s. Inr (setitem df ''date'' s))))"

text \<open>
  Lines 36 to 40. On a frame (a label that stands several times) \<^verbatim>\<open>to_numeric\<close>
  raises.
\<close>

definition normalize_price :: "(cell \<Rightarrow> real option) \<Rightarrow> frame \<Rightarrow> error + frame" where
  "normalize_price coerce df =
     (case filter (\<lambda>col. lower col = ''price'') (columns df) of
        p # _ \<Rightarrow>
          (case positions p (columns df) of
             [j] \<Rightarrow>
               (let df' = setitem df ''price'' (to_numeric coerce (column j df))
                in Inr (if p \<noteq> ''price'' then drop_columns df' p else df'))
           | _ \<Rightarrow> Inl TypeError)
      | [] \<Rightarrow> Inr df)"

text \<open>
  \<^verbatim>\<open>df.sort_values('date')\<close>: the rows in ascending order of the date column, missing
  dates last; and \<^verbatim>\<open>reset_index(drop=True)\<close>: the index labels become 0, 1, 2, ...
\<close>

definition sort_values_date :: "frame \<Rightarrow> error + frame" where
  "sort_values_date df =
     bind (date_position df) (\<lambda>j.
       Inr (df\<lparr>rows := sort_key (\<lambda>r. datetime_key (row_date j r)) (rows df)\<rparr>))"

definition reset_index :: "frame \<Rightarrow> frame" where
  "reset_index df = df\<lparr>rows := zip [0..<length (rows df)] (map snd (rows df))\<rparr>"

text \<open>The body of the \<^verbatim>\<open>try\<close> block, after \<^verbatim>\<open>read_csv\<close> has returned a frame.\<close>

definition process_frame ::
  "(cell list \<Rightarrow> cell \<Rightarrow> datetime option) \<Rightarrow> (cell \<Rightarrow> real option) \<Rightarrow> frame \<Rightarrow> error + frame" where
  "process_frame parse coerce df0 =
     bind (normalize_date parse (strip_columns df0)) (\<lambda>df1.
       bind (normalize_price coerce df1) (\<lambda>df2.
         bind (sort_values_date df2) (\<lambda>df3. Inr (reset_index df3))))"

text \<open>
  The result is a pair: the error shown with \<^verbatim>\<open>st.error\<close>, if any, and the value
  returned, where \<open>None\<close> is Python's \<^verbatim>\<open>None\<close>. Every exception of the \<^verbatim>\<open>try\<close> block is
  caught, so the function has no other outcome.
\<close>

definition load_and_process_data ::
  "(cell list \<Rightarrow> cell \<Rightarrow> datetime option) \<Rightarrow> (cell \<Rightarrow> real option) \<Rightarrow> filesystem \<Rightarrow> string
     \<Rightarrow> (string \<times> error) option \<times> frame option" where
  "load_and_process_data parse coerce fs file_path =
     (if file_path \<noteq> [] \<and> file_path \<in> dom fs then
        (case bind (the (fs file_path)) (process_frame parse coerce) of
           Inr df \<Rightarrow> (None, Some df)
         | Inl e \<Rightarrow> (Some (file_path, e), None))
      else (None, None))"

section \<open>Notions used in the statements\<close>

text \<open>
  A frame is sorted by date when the values of its \<^verbatim>\<open>date\<close> column are in
  non-decreasing order, missing dates last.
\<close>

definition date_sorted :: "frame \<Rightarrow> bool" where
  "date_sorted df =
     (case positions ''date'' (columns df) of
        [j] \<Rightarrow> sorted (map (\<lambda>r. datetime_key (row_date j r)) (rows df))
      | _ \<Rightarrow> False)"

text \<open>
  The three filter steps, to run them in an order other than the order of the source.
\<close>

datatype step = ByDateRange | ByMonth | ByYear

definition apply_step ::
  "(date \<times> date) option \<Rightarrow> string option \<Rightarrow> string option \<Rightarrow> step \<Rightarrow> frame \<Rightarrow> error + frame" where
  "apply_step date_range month_filter year_filter s df =
     (case s of
        ByDateRange \<Rightarrow> filter_date_range date_range df
      | ByMonth \<Rightarrow> filter_month month_filter df
      | ByYear \<Rightarrow> filter_year year_filter df)"

fun apply_steps ::
  "(date \<times> date) option \<Rightarrow> string option \<Rightarrow> string option \<Rightarrow> step list \<Rightarrow> frame \<Rightarrow> error + frame" where
  "apply_steps date_range month_filter year_filter [] df = Inr df"
| "apply_steps date_range month_filter year_filter (s # ss) df =
     bind (apply_step date_range month_filter year_filter s df)
       (apply_steps date_range month_filter year_filter ss)"

text \<open>
  For each step: whether its guard holds, whether its argument can be read, and the rows
  it keeps when the \<^verbatim>\<open>date\<close> column stands at position \<open>j\<close>.
\<close>

definition step_active :: "(date \<times> date) option \<Rightarrow> string option \<Rightarrow> string option \<Rightarrow> step \<Rightarrow> bool" where
  "step_active dr m y s =
     (case s of ByDateRange \<Rightarrow> dr \<noteq> None | ByMonth \<Rightarrow> active m | ByYear \<Rightarrow> active y)"

definition step_valid :: "string option \<Rightarrow> string option \<Rightarrow> step \<Rightarrow> bool" where
  "step_valid m y s =
     (case s of
        ByDateRange \<Rightarrow> True
      | ByMonth \<Rightarrow> strptime_month (the m) \<noteq> None
      | ByYear \<Rightarrow> py_int (the y) \<noteq> None)"

definition step_keeps ::
  "nat \<Rightarrow> (date \<times> date) option \<Rightarrow> string option \<Rightarrow> string option \<Rightarrow> step \<Rightarrow> nat \<times> cell list \<Rightarrow> bool" where
  "step_keeps j dr m y s r =
     (case s of
        ByDateRange \<Rightarrow> ge_timestamp (row_date j r) (to_timestamp (fst (the dr)))
                       \<and> le_timestamp (row_date j r) (to_timestamp (snd (the dr)))
      | ByMonth \<Rightarrow> month_is (row_date j r) (the (strptime_month (the m)))
      | ByYear \<Rightarrow> year_is (row_date j r) (the (py_int (the y))))"

text \<open>The outcome without the exception's name.\<close>

definition outcome :: "error + frame \<Rightarrow> frame option" where
  "outcome x = (case x of Inl e \<Rightarrow> None | Inr df \<Rightarrow> Some df)"

definition march_example :: frame where
  "march_example =
     \<lparr>columns = [''date'', ''price''],
      rows = [(0, [Datetime (Stamp (Timestamp 2023 3 1 0)), Number 10]),
              (1, [Datetime (Stamp (Timestamp 2023 3 15 0)), Number 11]),
              (2, [Datetime (Stamp (Timestamp 2022 3 10 0)), Number 12]),
              (3, [Datetime (Stamp (Timestamp 2023 4 1 0)), NaN])]\<rparr>"

definition sorted_example :: frame where
  "sorted_example =
     \<lparr>columns = [''volume'', ''date''],
      rows = [(0, [Number 5, Datetime (Stamp (Timestamp 2022 3 10 0))]),
              (1, [Number 6, Datetime (Stamp (Timestamp 2023 3 1 0))]),
              (2, [Number 7, Datetime (Stamp (Timestamp 2023 3 15 0))]),
              (3, [Number 8, Datetime (Stamp (Timestamp 2023 4 1 0))]),
              (4, [Number 9, Datetime NaT])]\<rparr>"

text \<open>
  An instance of the two parameters, for the examples: day-first dates and prices of the
  example files, read from a table; an empty cell is read as a missing date.
\<close>

definition example_parse :: "cell list \<Rightarrow> cell \<Rightarrow> datetime option" where
  "example_parse s c =
     (case c of
        Text t \<Rightarrow>
          map_of [(''02/01/2024'', Stamp (Timestamp 2024 1 2 0)),
                  (''03/01/2024'', Stamp (Timestamp 2024 1 3 0)),
                  (''04/01/2024'', Stamp (Timestamp 2024 1 4 0)),
                  (''05/01/2024'', Stamp (Timestamp 2024 1 5 0)),
                  (''08/01/2024'', Stamp (Timestamp 2024 1 8 0)),
                  (''09/01/2024'', Stamp (Timestamp 2024 1 9 0)),
                  (''10/01/2024'', Stamp (Timestamp 2024 1 10 0)),
                  (''11/01/2024'', Stamp (Timestamp 2024 1 11 0)),
                  (''12/01/2024'', Stamp (Timestamp 2024 1 12 0)),
                  (''01/02/2024'', Stamp (Timestamp 2024 2 1 0))] t
      | NaN \<Rightarrow> Some NaT
      | _ \<Rightarrow> None)"

definition example_coerce :: "cell \<Rightarrow> real option" where
  "example_coerce c =
     (case c of
        Number v \<Rightarrow> Some v
      | Text t \<Rightarrow> map_of [(''8430'', 8430), (''8421'', 8421), (''8390'', 8390), (''8402'', 8402),
                          (''8377'', 8377), (''8350'', 8350), (''8365'', 8365), (''8410'', 8410),
                          (''8433'', 8433)] t
      | _ \<Rightarrow> None)"

text \<open>
  A file of ten rows, not in date order, whose headers need stripping and lower case; the
  price of one row is the text \<^verbatim>\<open>n.a.\<close>, which is no number.
\<close>

definition copper_csv :: frame where
  "copper_csv =
     \<lparr>columns = [''Date '', '' PRICE''],
      rows = [(0, [Text ''05/01/2024'', Text ''8402'']),
              (1, [Text ''02/01/2024'', Text ''8430'']),
              (2, [Text ''03/01/2024'', Text ''8421'']),
              (3, [Text ''04/01/2024'', Text ''n.a.'']),
              (4, [Text ''01/02/2024'', Text ''8433'']),
              (5, [Text ''08/01/2024'', Text ''8377'']),
              (6, [Text ''09/01/2024'', Text ''8350'']),
              (7, [Text ''10/01/2024'', Text ''8365'']),
              (8, [Text ''11/01/2024'', Text ''8410'']),
              (9, [Text ''12/01/2024'', Text ''8390''])]\<rparr>"

text \<open>A file with a header row only, and a file without a date header and a price header.\<close>

definition empty_csv :: frame where
  "empty_csv = \<lparr>columns = [''date'', ''price''], rows = []\<rparr>"

definition day_value_csv :: frame where
  "day_value_csv =
     \<lparr>columns = [''Day'', ''Value''],
      rows = [(0, [Text ''03/01/2024'', Number 7]), (1, [Text ''02/01/2024'', Number 5])]\<rparr>"

definition example_files :: filesystem where
  "example_files =
     [''LME_Copper.csv'' \<mapsto> Inr copper_csv, ''empty.csv'' \<mapsto> Inr empty_csv,
      ''days.csv'' \<mapsto> Inr day_value_csv, ''broken.csv'' \<mapsto> Inl FileError]"

definition copper_dated :: frame where
  "copper_dated =
     \<lparr>columns = [''PRICE'', ''date''],
      rows = [(0, [Text ''8402'', Datetime (Stamp (Timestamp 2024 1 5 0))]),
              (1, [Text ''8430'', Datetime (Stamp (Timestamp 2024 1 2 0))]),
              (2, [Text ''8421'', Datetime (Stamp (Timestamp 2024 1 3 0))]),
              (3, [Text ''n.a.'', Datetime (Stamp (Timestamp 2024 1 4 0))]),
              (4, [Text ''8433'', Datetime (Stamp (Timestamp 2024 2 1 0))]),
              (5, [Text ''8377'', Datetime (Stamp (Timestamp 2024 1 8 0))]),
              (6, [Text ''8350'', Datetime (Stamp (Timestamp 2024 1 9 0))]),
              (7, [Text ''8365'', Datetime (Stamp (Timestamp 2024 1 10 0))]),
              (8, [Text ''8410'', Datetime (Stamp (Timestamp 2024 1 11 0))]),
              (9, [Text ''8390'', Datetime (Stamp (Timestamp 2024 1 12 0))])]\<rparr>"

definition copper_priced :: frame where
  "copper_priced =
     \<lparr>columns = [''date'', ''price''],
      rows = [(0, [Datetime (Stamp (Timestamp 2024 1 5 0)), Number 8402]),
              (1, [Datetime (Stamp (Timestamp 2024 1 2 0)), Number 8430]),
              (2, [Datetime (Stamp (Timestamp 2024 1 3 0)), Number 8421]),
              (3, [Datetime (Stamp (Timestamp 2024 1 4 0)), NaN]),
              (4, [Datetime (Stamp (Timestamp 2024 2 1 0)), Number 8433]),
              (5, [Datetime (Stamp (Timestamp 2024 1 8 0)), Number 8377]),
              (6, [Datetime (Stamp (Timestamp 2024 1 9 0)), Number 8350]),
              (7, [Datetime (Stamp (Timestamp 2024 1 10 0)), Number 8365]),
              (8, [Datetime (Stamp (Timestamp 2024 1 11 0)), Number 8410]),
              (9, [Datetime (Stamp (Timestamp 2024 1 12 0)), Number 8390])]\<rparr>"

text \<open>What the loader returns on the ten rows: all ten, by date, the one price missing.\<close>

definition copper_loaded :: frame where
  "copper_loaded =
     \<lparr>columns = [''date'', ''price''],
      rows = [(0, [Datetime (Stamp (Timestamp 2024 1 2 0)), Number 8430]),
              (1, [Datetime (Stamp (Timestamp 2024 1 3 0)), Number 8421]),
              (2, [Datetime (Stamp (Timestamp 2024 1 4 0)), NaN]),
              (3, [Datetime (Stamp (Timestamp 2024 1 5 0)), Number 8402]),
              (4, [Datetime (Stamp (Timestamp 2024 1 8 0)), Number 8377]),
              (5, [Datetime (Stamp (Timestamp 2024 1 9 0)), Number 8350]),
              (6, [Datetime (Stamp (Timestamp 2024 1 10 0)), Number 8365]),
              (7, [Datetime (Stamp (Timestamp 2024 1 11 0)), Number 8410]),
              (8, [Datetime (Stamp (Timestamp 2024 1 12 0)), Number 8390]),
              (9, [Datetime (Stamp (Timestamp 2024 2 1 0)), Number 8433])]\<rparr>"

definition day_value_loaded :: frame where
  "day_value_loaded =
     \<lparr>columns = [''Day'', ''Value'', ''date''],
      rows = [(0, [Text ''02/01/2024'', Number 5, Datetime (Stamp (Timestamp 2024 1 2 0))]),
              (1, [Text ''03/01/2024'', Number 7, Datetime (Stamp (Timestamp 2024 1 3 0))])]\<rparr>"

text \<open>
  The header in which the loader finds the date: the first one that is \<^verbatim>\<open>date\<close> once
  stripped and put in lower case, if there is one.
\<close>

definition date_header :: "frame \<Rightarrow> string option" where
  "date_header df0 =
     (case filter (\<lambda>col. lower col = ''date'') (map strip (columns df0)) of
        [] \<Rightarrow> None
      | d # _ \<Rightarrow> Some d)"

text \<open>
  Objects. To speak of mutation and aliasing, frames are put in a store: the list of the
  frame objects allocated so far; a reference to a frame is its position in the store.
  \<^verbatim>\<open>df.copy()\<close> and \<^verbatim>\<open>filtered_df[mask]\<close> each make a new object.
\<close>

type_synonym store = "frame list"

definition new_frame :: "store \<Rightarrow> frame \<Rightarrow> store \<times> nat" where
  "new_frame h v = (h @ [v], length h)"

text \<open>
  One \<^verbatim>\<open>if guard: filtered_df = filtered_df[mask]\<close>: under the guard, the variable is
  bound to the new object that the step makes from the object it was bound to; an
  exception leaves the store as it is.
\<close>

definition rebind ::
  "bool \<Rightarrow> (frame \<Rightarrow> error + frame) \<Rightarrow> store \<times> nat \<Rightarrow> store \<times> (error + nat)" where
  "rebind guard step s =
     (case s of (h, r) \<Rightarrow>
        if guard then
          (case step (h ! r) of
             Inl e \<Rightarrow> (h, Inl e)
           | Inr v \<Rightarrow> (case new_frame h v of (h', r') \<Rightarrow> (h', Inr r')))
        else (h, Inr r))"

text \<open>
  \<^verbatim>\<open>filter_data\<close> on references: \<open>df\<close> is the reference passed in; the result is the
  store after the call with the reference returned, or the exception.
\<close>

definition filter_data_store ::
  "store \<Rightarrow> nat \<Rightarrow> (date \<times> date) option \<Rightarrow> string option \<Rightarrow> string option
     \<Rightarrow> store \<times> (error + nat)" where
  "filter_data_store h df date_range month_filter year_filter =
     (case new_frame h (h ! df) of (h0, filtered_df) \<Rightarrow>
        (case rebind (date_range \<noteq> None) (filter_date_range date_range) (h0, filtered_df) of
           (h1, Inl e) \<Rightarrow> (h1, Inl e)
         | (h1, Inr r1) \<Rightarrow>
             (case rebind (active month_filter) (filter_month month_filter) (h1, r1) of
                (h2, Inl e) \<Rightarrow> (h2, Inl e)
              | (h2, Inr r2) \<Rightarrow> rebind (active year_filter) (filter_year year_filter) (h2, r2))))"

text \<open>
  A frame is rectangular when every row has one cell for every column, as every
  DataFrame is.
\<close>

definition rectangular :: "frame \<Rightarrow> bool" where
  "rectangular df = (\<forall>r \<in> set (rows df). length (snd r) = length (columns df))"

text \<open>The cells of a row that stand under a label.\<close>

definition cells_at :: "string \<Rightarrow> string list \<Rightarrow> cell list \<Rightarrow> cell list" where
  "cells_at l cs r = map snd (filter (\<lambda>(n, c). n = l) (zip cs r))"

text \<open>
  What \<^verbatim>\<open>df[l] = v\<close> followed, when the header \<open>d\<close> differs from \<open>l\<close>, by
  \<^verbatim>\<open>df.drop(columns=[d])\<close> makes of the labels and of the cells of one row.
\<close>

definition with_label :: "string list \<Rightarrow> string \<Rightarrow> string \<Rightarrow> string list" where
  "with_label cs l d =
     (if d \<noteq> l then filter (\<lambda>n. n \<noteq> d) (if l \<in> set cs then cs else cs @ [l])
      else (if l \<in> set cs then cs else cs @ [l]))"

definition with_column :: "string list \<Rightarrow> string \<Rightarrow> string \<Rightarrow> cell \<Rightarrow> cell list \<Rightarrow> cell list" where
  "with_column cs l d v r =
     (if d \<noteq> l
      then map snd (filter (\<lambda>(n, c). n \<noteq> d)
             (zip (if l \<in> set cs then cs else cs @ [l]) (set_cells cs l v r)))
      else set_cells cs l v r)"

text \<open>
  The position of the column in which the loader finds the price: the first header that
  is \<^verbatim>\<open>price\<close> once stripped and put in lower case.
\<close>

definition price_source :: "frame \<Rightarrow> nat option" where
  "price_source df0 =
     (case filter (\<lambda>j. lower (strip (columns df0 ! j)) = ''price'') [0..<length (columns df0)] of
        [] \<Rightarrow> None
      | k # _ \<Rightarrow> Some k)"

text \<open>
  The position of the column from which the loader takes the dates: the first header that
  is \<^verbatim>\<open>date\<close> once stripped and put in lower case, and the first column when there is none.
\<close>

definition date_source :: "frame \<Rightarrow> nat" where
  "date_source df0 =
     (case filter (\<lambda>j. lower (strip (columns df0 ! j)) = ''date'') [0..<length (columns df0)] of
        [] \<Rightarrow> 0
      | k # _ \<Rightarrow> k)"

definition copper_flat :: frame where
  "copper_flat =
     \<lparr>columns = [''date'', ''price''],
      rows = [(0, [Datetime (Stamp (Timestamp 2024 1 2 0)), Number 0]),
              (1, [Datetime (Stamp (Timestamp 2024 1 3 0)), Number 0]),
              (2, [Datetime (Stamp (Timestamp 2024 1 4 0)), Number 0]),
              (3, [Datetime (Stamp (Timestamp 2024 1 5 0)), Number 0]),
              (4, [Datetime (Stamp (Timestamp 2024 1 8 0)), Number 0]),
              (5, [Datetime (Stamp (Timestamp 2024 1 9 0)), Number 0]),
              (6, [Datetime (Stamp (Timestamp 2024 1 10 0)), Number 0]),
              (7, [Datetime (Stamp (Timestamp 2024 1 11 0)), Number 0]),
              (8, [Datetime (Stamp (Timestamp 2024 1 12 0)), Number 0]),
              (9, [Datetime (Stamp (Timestamp 2024 2 1 0)), Number 0])]\<rparr>"

section \<open>Properties\<close>

lemma bind_Inr: "bind (Inr v) f = f v"
  by (simp add: bind_def)

lemma bind_Inl: "bind (Inl e) f = Inl e"
  by (simp add: bind_def)

lemma bind_eq_Inr: "bind x f = Inr y \<longleftrightarrow> (\<exists>v. x = Inr v \<and> f v = Inr y)"
  by (cases x) (simp_all add: bind_def)

lemma columns_select_rows: "columns (select_rows p df) = columns df"
  by (simp add: select_rows_def)

lemma rows_select_rows: "rows (select_rows p df) = filter p (rows df)"
  by (simp add: select_rows_def)

lemma select_rows_twice: "select_rows p (select_rows q df) = select_rows (\<lambda>r. q r \<and> p r) df"
  by (simp add: select_rows_def conj_commute)

lemma select_rows_True: "select_rows (\<lambda>r. True) df = df"
  by (simp add: select_rows_def)

lemma date_position_select_rows:
  "date_position df = Inr j \<Longrightarrow> date_position (select_rows p df) = Inr j"
  by (auto simp: date_position_def select_rows_def split: list.splits if_splits)

lemma filter_data_steps:
  "filter_data df dr m y = apply_steps dr m y [ByDateRange, ByMonth, ByYear] df"
  by (cases "filter_date_range dr df"; cases "filter_month m (projr (filter_date_range dr df))")
     (simp_all add: filter_data_def apply_step_def bind_def split: sum.splits)

text \<open>Every step that succeeds selects rows.\<close>

lemma apply_step_selects:
  "apply_step dr m y s df = Inr df' \<Longrightarrow> \<exists>p. df' = select_rows p df"
  apply (cases s)
  apply (auto simp: apply_step_def filter_date_range_def filter_month_def filter_year_def bind_eq_Inr
       split: option.splits if_splits prod.splits)
  apply (metis select_rows_True)+
  done

lemma apply_steps_selects:
  "apply_steps dr m y ss df = Inr df' \<Longrightarrow> \<exists>p. df' = select_rows p df"
proof (induction ss arbitrary: df)
  case Nil
  then show ?case by (metis apply_steps.simps(1) select_rows_True sum.inject(2))
next
  case (Cons s ss)
  from Cons.prems obtain df1 where 1: "apply_step dr m y s df = Inr df1"
    and 2: "apply_steps dr m y ss df1 = Inr df'"
    by (auto simp: bind_eq_Inr)
  from apply_step_selects[OF 1] obtain q where "df1 = select_rows q df" by blast
  moreover from Cons.IH[OF 2] obtain p where "df' = select_rows p df1" by blast
  ultimately show ?case by (metis select_rows_twice)
qed

lemma filter_data_selects:
  "filter_data df dr m y = Inr df' \<Longrightarrow> \<exists>p. df' = select_rows p df"
  unfolding filter_data_steps by (rule apply_steps_selects)

lemma date_sorted_select_rows: "date_sorted df \<Longrightarrow> date_sorted (select_rows p df)"
  by (auto simp: date_sorted_def select_rows_def sorted_filter split: list.splits)

text \<open>
  Claim C10. The rows that \<^verbatim>\<open>filter_data\<close> returns are a subsequence of the rows of
  its input: each is a row of the input and their relative order is kept; the columns are
  the same; and a frame sorted by date stays sorted by date.
\<close>

theorem filter_data_subsequence:
  assumes "filter_data df date_range month_filter year_filter = Inr df'"
  shows "subseq (rows df') (rows df) \<and> columns df' = columns df
         \<and> (date_sorted df \<longrightarrow> date_sorted df')"
proof -
  from filter_data_selects[OF assms] obtain p where "df' = select_rows p df" by blast
  then show ?thesis
    by (simp add: rows_select_rows columns_select_rows date_sorted_select_rows)
qed

text \<open>
  Claim C3. Without a date range, and with month and year unset, empty or \<^verbatim>\<open>"All"\<close>,
  \<^verbatim>\<open>filter_data\<close> returns a frame equal to its input, whatever the frame is.
\<close>

theorem filter_data_no_filters:
  assumes "\<not> active month_filter" and "\<not> active year_filter"
  shows "filter_data df None month_filter year_filter = Inr df"
  using assms
  by (simp add: filter_data_def filter_date_range_def filter_month_def filter_year_def bind_def)

lemma apply_step_normalized:
  assumes "date_position df = Inr j"
  shows "apply_step dr m y s df =
          (if step_active dr m y s then
             (if step_valid m y s then Inr (select_rows (step_keeps j dr m y s) df)
              else Inl ValueError)
           else Inr df)"
  using assms
  by (cases s)
     (auto simp: apply_step_def step_active_def step_valid_def step_keeps_def[abs_def] bind_def
        filter_date_range_def filter_month_def filter_year_def split: option.splits)

lemma apply_steps_normalized:
  assumes "date_position df = Inr j"
  shows "apply_steps dr m y ss df =
          (if \<forall>s \<in> set ss. step_active dr m y s \<longrightarrow> step_valid m y s then
             Inr (select_rows (\<lambda>r. \<forall>s \<in> set ss. step_active dr m y s \<longrightarrow> step_keeps j dr m y s r) df)
           else Inl ValueError)"
  using assms
proof (induction ss arbitrary: df)
  case Nil
  then show ?case by (simp add: select_rows_True)
next
  case (Cons s ss)
  show ?case
  proof (cases "step_active dr m y s")
    case False
    then show ?thesis
      using Cons.IH[OF Cons.prems] by (simp add: apply_step_normalized[OF Cons.prems] bind_Inr)
  next
    case act: True
    show ?thesis
    proof (cases "step_valid m y s")
      case False
      with act show ?thesis
        by (auto simp add: apply_step_normalized[OF Cons.prems] bind_Inl)
    next
      case True
      let ?df1 = "select_rows (step_keeps j dr m y s) df"
      have pos: "date_position ?df1 = Inr j"
        by (rule date_position_select_rows[OF Cons.prems])
      have "apply_steps dr m y (s # ss) df = apply_steps dr m y ss ?df1"
        using act True by (simp add: apply_step_normalized[OF Cons.prems] bind_Inr)
      also note Cons.IH[OF pos]
      finally show ?thesis
        using act True by (auto simp: select_rows_twice intro!: arg_cong[where f=Inr] arg_cong2[where f=select_rows])
    qed
  qed
qed

lemma apply_step_not_normalized:
  assumes "isl (date_position df)"
  shows "apply_step dr m y s df = (if step_active dr m y s then apply_step dr m y s df else Inr df)"
    and "step_active dr m y s \<Longrightarrow> isl (apply_step dr m y s df)"
  using assms
  by (cases s; cases "date_position df";
      auto simp: apply_step_def step_active_def bind_def
        filter_date_range_def filter_month_def filter_year_def split: option.splits)+

lemma apply_steps_not_normalized:
  assumes "isl (date_position df)"
  shows "if \<exists>s \<in> set ss. step_active dr m y s then isl (apply_steps dr m y ss df)
         else apply_steps dr m y ss df = Inr df"
proof (induction ss)
  case Nil
  then show ?case by simp
next
  case (Cons s ss)
  show ?case
  proof (cases "step_active dr m y s")
    case True
    with apply_step_not_normalized(2)[OF assms True] show ?thesis
      by (cases "apply_step dr m y s df") (auto simp: bind_def)
  next
    case False
    then have "apply_step dr m y s df = Inr df"
      using apply_step_not_normalized(1)[OF assms, of dr m y s] by simp
    with Cons.IH False show ?thesis by (simp add: bind_Inr)
  qed
qed

lemma apply_steps_set:
  assumes "set ss = set ss'"
  shows "outcome (apply_steps dr m y ss df) = outcome (apply_steps dr m y ss' df)"
proof (cases "date_position df")
  case (Inr j)
  show ?thesis
    by (auto simp: apply_steps_normalized[OF Inr] assms)
next
  case (Inl e)
  then have n: "isl (date_position df)" by simp
  show ?thesis
    using apply_steps_not_normalized[OF n, of ss dr m y] apply_steps_not_normalized[OF n, of ss' dr m y]
    by (auto simp: outcome_def assms split: sum.splits if_splits)
qed

text \<open>
  Claim C8. Running the three steps in any permutation gives the outcome of
  \<^verbatim>\<open>filter_data\<close>, which runs date range, month, year: the same frame when it returns
  one, and an exception exactly when \<^verbatim>\<open>filter_data\<close> raises one.
\<close>

theorem filter_order_irrelevant:
  assumes "mset order = mset [ByDateRange, ByMonth, ByYear]"
  shows "outcome (apply_steps date_range month_filter year_filter order df)
         = outcome (filter_data df date_range month_filter year_filter)"
proof -
  from assms have "set order = set [ByDateRange, ByMonth, ByYear]"
    by (rule mset_eq_setD)
  then show ?thesis
    unfolding filter_data_steps by (rule apply_steps_set)
qed

lemma strptime_month_March: "strptime_month ''March'' = Some 3"
  by (simp add: strptime_month_def month_names_def lower_def lower_char_def)

lemma py_int_2023: "py_int ''2023'' = Some 2023"
  by (simp add: py_int_def is_int_space_def unsigned_int_def digit_val_def)

lemma active_March: "active (Some ''March'')"
  by (simp add: active_def)

lemma active_2023: "active (Some ''2023'')"
  by (simp add: active_def)

lemma date_position_cell:
  assumes "date_position df = Inr j" and "r \<in> set (rows df)"
  shows "\<exists>d. snd r ! j = Datetime d"
proof -
  have "is_datetime (snd r ! j)"
    using assms by (auto simp: date_position_def split: list.splits if_splits)
  then show ?thesis
    by (cases "snd r ! j") (simp_all add: is_datetime_def)
qed

text \<open>
  Claim C1. On a frame whose \<^verbatim>\<open>date\<close> column is a datetime column,
  \<^verbatim>\<open>filter_data\<close> with month \<^verbatim>\<open>"March"\<close>, year \<^verbatim>\<open>"2023"\<close> and no date range returns
  the columns unchanged and exactly the rows whose date is in March 2023, in their order.
\<close>

theorem filter_data_March_2023:
  assumes "date_position df = Inr j"
  shows "\<exists>df'. filter_data df None (Some ''March'') (Some ''2023'') = Inr df'
           \<and> columns df' = columns df
           \<and> rows df' = filter (\<lambda>r. \<exists>t. snd r ! j = Datetime (Stamp t) \<and> month t = 3 \<and> year t = 2023)
                          (rows df)"
proof -
  let ?p = "\<lambda>r. month_is (row_date j r) 3 \<and> year_is (row_date j r) 2023"
  have 1: "filter_month (Some ''March'') df = Inr (select_rows (\<lambda>r. month_is (row_date j r) 3) df)"
    using assms by (simp add: filter_month_def active_March strptime_month_March bind_Inr)
  have 2: "filter_year (Some ''2023'') (select_rows (\<lambda>r. month_is (row_date j r) 3) df)
           = Inr (select_rows ?p df)"
    by (simp add: filter_year_def active_2023 py_int_2023 bind_Inr
          date_position_select_rows[OF assms] select_rows_twice)
  have 3: "filter_data df None (Some ''March'') (Some ''2023'') = Inr (select_rows ?p df)"
    by (simp add: filter_data_def filter_date_range_def bind_Inr 1 2)
  have "filter ?p (rows df)
        = filter (\<lambda>r. \<exists>t. snd r ! j = Datetime (Stamp t) \<and> month t = 3 \<and> year t = 2023) (rows df)"
  proof (rule filter_cong[OF refl])
    fix r assume "r \<in> set (rows df)"
    from date_position_cell[OF assms this] obtain d where "snd r ! j = Datetime d" ..
    then show "?p r = (\<exists>t. snd r ! j = Datetime (Stamp t) \<and> month t = 3 \<and> year t = 2023)"
      by (cases d) (auto simp: row_date_def cell_datetime_def month_is_def year_is_def)
  qed
  with 3 show ?thesis by (simp add: rows_select_rows columns_select_rows)
qed

lemma empty_range:
  assumes "date_less b a"
  shows "\<not> (ge_timestamp d (to_timestamp a) \<and> le_timestamp d (to_timestamp b))"
proof
  assume h: "ge_timestamp d (to_timestamp a) \<and> le_timestamp d (to_timestamp b)"
  then obtain t where "ts_key (to_timestamp a) \<le> ts_key t" "ts_key t \<le> ts_key (to_timestamp b)"
    by (cases d) (auto simp: ge_timestamp_def le_timestamp_def)
  then have "ts_key (to_timestamp a) \<le> ts_key (to_timestamp b)" by (rule order_trans)
  with assms show False
    by (cases a; cases b) (auto simp: date_less_def to_timestamp_def ts_key_def)
qed

lemma select_rows_False: "select_rows (\<lambda>r. False) df = df\<lparr>rows := []\<rparr>"
  by (simp add: select_rows_def)

lemma filter_date_range_empty:
  assumes "date_less b a" and "filter_date_range (Some (a, b)) df = Inr df1"
  shows "df1 = df\<lparr>rows := []\<rparr>"
  using assms(2) empty_range[OF assms(1)]
  by (auto simp: filter_date_range_def bind_eq_Inr select_rows_False)

text \<open>
  Claim C7. With a date range whose start is after its end, whatever \<^verbatim>\<open>filter_data\<close>
  returns has no rows; and it does return, with the columns of the input, when the
  \<^verbatim>\<open>date\<close> column is a datetime column and the month and the year, where set, can be
  read.
\<close>

theorem filter_data_impossible_range:
  assumes "date_less b a"
  shows "(\<forall>df'. filter_data df (Some (a, b)) month_filter year_filter = Inr df' \<longrightarrow> df' = df\<lparr>rows := []\<rparr>)
       \<and> (\<not> isl (date_position df)
            \<and> (active month_filter \<longrightarrow> strptime_month (the month_filter) \<noteq> None)
            \<and> (active year_filter \<longrightarrow> py_int (the year_filter) \<noteq> None)
          \<longrightarrow> filter_data df (Some (a, b)) month_filter year_filter = Inr (df\<lparr>rows := []\<rparr>))"
proof (intro conjI allI impI)
  fix df' assume ok: "filter_data df (Some (a, b)) month_filter year_filter = Inr df'"
  then obtain df1 where 1: "filter_date_range (Some (a, b)) df = Inr df1"
    and 2: "bind (filter_month month_filter df1) (filter_year year_filter) = Inr df'"
    by (auto simp: filter_data_def bind_eq_Inr)
  have e: "df1 = df\<lparr>rows := []\<rparr>" by (rule filter_date_range_empty[OF assms 1])
  from 2 have "apply_steps None month_filter year_filter [ByMonth, ByYear] df1 = Inr df'"
    by (cases "filter_month month_filter df1") (auto simp: apply_step_def bind_def split: sum.splits)
  from apply_steps_selects[OF this] obtain p where "df' = select_rows p df1" ..
  with e show "df' = df\<lparr>rows := []\<rparr>" by (simp add: select_rows_def)
next
  assume h: "\<not> isl (date_position df)
            \<and> (active month_filter \<longrightarrow> strptime_month (the month_filter) \<noteq> None)
            \<and> (active year_filter \<longrightarrow> py_int (the year_filter) \<noteq> None)"
  then obtain j where j: "date_position df = Inr j" by (cases "date_position df") auto
  have v: "\<forall>s \<in> set [ByDateRange, ByMonth, ByYear].
             step_active (Some (a, b)) month_filter year_filter s \<longrightarrow> step_valid month_filter year_filter s"
    using h by (simp add: step_active_def step_valid_def)
  have "filter_data df (Some (a, b)) month_filter year_filter
        = Inr (select_rows (\<lambda>r. \<forall>s \<in> set [ByDateRange, ByMonth, ByYear].
                 step_active (Some (a, b)) month_filter year_filter s
                   \<longrightarrow> step_keeps j (Some (a, b)) month_filter year_filter s r) df)"
    unfolding filter_data_steps apply_steps_normalized[OF j] using v by simp
  moreover have "\<And>r. \<not> step_keeps j (Some (a, b)) month_filter year_filter ByDateRange r"
    using empty_range[OF assms] by (simp add: step_keeps_def)
  ultimately show "filter_data df (Some (a, b)) month_filter year_filter = Inr (df\<lparr>rows := []\<rparr>)"
    by (simp add: step_active_def select_rows_def)
qed

lemma date_position_march_example: "date_position march_example = Inr 0"
  by (simp add: date_position_def positions_def march_example_def is_datetime_def)

lemma date_position_sorted_example: "date_position sorted_example = Inr 1"
  by (simp add: date_position_def positions_def sorted_example_def is_datetime_def)

theorem filter_data_March_2023_witness:
  "date_position march_example = Inr 0
   \<and> (\<exists>df'. filter_data march_example None (Some ''March'') (Some ''2023'') = Inr df'
          \<and> columns df' = [''date'', ''price'']
          \<and> rows df' = [(0, [Datetime (Stamp (Timestamp 2023 3 1 0)), Number 10]),
                         (1, [Datetime (Stamp (Timestamp 2023 3 15 0)), Number 11])])"
  using filter_data_March_2023[OF date_position_march_example] date_position_march_example
  by (simp add: march_example_def)

theorem filter_data_no_filters_witness:
  "\<not> active (Some ''All'') \<and> \<not> active None
   \<and> filter_data march_example None (Some ''All'') None = Inr march_example"
  using filter_data_no_filters[of "Some ''All''" None march_example]
  by (simp add: active_def)

lemma range_step_sorted_example:
  "filter_date_range (Some (Date 2023 2 2, Date 2023 3 15)) sorted_example
   = Inr (sorted_example\<lparr>rows := [(1, [Number 6, Datetime (Stamp (Timestamp 2023 3 1 0))]),
              (2, [Number 7, Datetime (Stamp (Timestamp 2023 3 15 0))])]\<rparr>)"
  by (simp add: filter_date_range_def date_position_sorted_example bind_Inr select_rows_def)
     (simp add: sorted_example_def row_date_def cell_datetime_def ge_timestamp_def le_timestamp_def
        to_timestamp_def ts_key_def)

lemma filter_data_sorted_example:
  "filter_data sorted_example (Some (Date 2023 2 2, Date 2023 3 15)) (Some ''All'') None
   = Inr (sorted_example\<lparr>rows := [(1, [Number 6, Datetime (Stamp (Timestamp 2023 3 1 0))]),
              (2, [Number 7, Datetime (Stamp (Timestamp 2023 3 15 0))])]\<rparr>)"
  unfolding filter_data_def range_step_sorted_example bind_Inr
  by (simp add: filter_month_def filter_year_def active_def bind_Inr)

lemma date_sorted_sorted_example: "date_sorted sorted_example"
  by (simp add: date_sorted_def positions_def sorted_example_def row_date_def cell_datetime_def
        datetime_key_def ts_key_def)

theorem filter_data_subsequence_witness:
  "filter_data sorted_example (Some (Date 2023 2 2, Date 2023 3 15)) (Some ''All'') None
     = Inr (sorted_example\<lparr>rows := [(1, [Number 6, Datetime (Stamp (Timestamp 2023 3 1 0))]),
              (2, [Number 7, Datetime (Stamp (Timestamp 2023 3 15 0))])]\<rparr>)
   \<and> subseq [(1, [Number 6, Datetime (Stamp (Timestamp 2023 3 1 0))]),
              (2, [Number 7, Datetime (Stamp (Timestamp 2023 3 15 0))])] (rows sorted_example)
   \<and> date_sorted sorted_example
   \<and> date_sorted (sorted_example\<lparr>rows := [(1, [Number 6, Datetime (Stamp (Timestamp 2023 3 1 0))]),
              (2, [Number 7, Datetime (Stamp (Timestamp 2023 3 15 0))])]\<rparr>)"
  using filter_data_subsequence[OF filter_data_sorted_example] filter_data_sorted_example
    date_sorted_sorted_example
  by simp

theorem filter_data_impossible_range_witness:
  "date_less (Date 2023 3 1) (Date 2023 3 15)
   \<and> \<not> isl (date_position march_example)
   \<and> active (Some ''March'') \<and> strptime_month ''March'' = Some 3
   \<and> active (Some ''2023'') \<and> py_int ''2023'' = Some 2023
   \<and> filter_data march_example (Some (Date 2023 3 15, Date 2023 3 1)) (Some ''March'') (Some ''2023'')
       = Inr (march_example\<lparr>rows := []\<rparr>)"
proof -
  have h: "date_less (Date 2023 3 1) (Date 2023 3 15)"
    by (simp add: date_less_def)
  have n: "\<not> isl (date_position march_example)"
    by (simp add: date_position_march_example)
  have m: "active (Some ''March'') \<longrightarrow> strptime_month (the (Some ''March'')) \<noteq> None"
    by (simp add: strptime_month_March)
  have y: "active (Some ''2023'') \<longrightarrow> py_int (the (Some ''2023'')) \<noteq> None"
    by (simp add: py_int_2023)
  from filter_data_impossible_range[OF h, of march_example "Some ''March''" "Some ''2023''"]
  have "filter_data march_example (Some (Date 2023 3 15, Date 2023 3 1)) (Some ''March'') (Some ''2023'')
       = Inr (march_example\<lparr>rows := []\<rparr>)"
    using n m y by blast
  with h n active_March active_2023 strptime_month_March py_int_2023 show ?thesis by blast
qed

lemma filter_data_march_example_all:
  "filter_data march_example (Some (Date 2022 2 2, Date 2023 3 10)) (Some ''March'') (Some ''2023'')
   = Inr (march_example\<lparr>rows := [(0, [Datetime (Stamp (Timestamp 2023 3 1 0)), Number 10])]\<rparr>)"
  by (simp add: filter_data_def filter_date_range_def filter_month_def filter_year_def bind_def
      date_position_def positions_def march_example_def is_datetime_def select_rows_def
      row_date_def cell_datetime_def ge_timestamp_def le_timestamp_def to_timestamp_def ts_key_def
      month_is_def year_is_def active_def strptime_month_March py_int_2023)

lemma year_step_march_example:
  "filter_year (Some ''2023'') march_example
   = Inr (march_example\<lparr>rows := [(0, [Datetime (Stamp (Timestamp 2023 3 1 0)), Number 10]),
        (1, [Datetime (Stamp (Timestamp 2023 3 15 0)), Number 11]),
        (3, [Datetime (Stamp (Timestamp 2023 4 1 0)), NaN])]\<rparr>)"
  by (simp add: filter_year_def bind_def date_position_def positions_def march_example_def
      is_datetime_def select_rows_def row_date_def cell_datetime_def year_is_def active_def
      py_int_2023)

lemma month_step_march_example:
  "filter_month (Some ''March'') march_example
   = Inr (march_example\<lparr>rows := [(0, [Datetime (Stamp (Timestamp 2023 3 1 0)), Number 10]),
        (1, [Datetime (Stamp (Timestamp 2023 3 15 0)), Number 11]),
        (2, [Datetime (Stamp (Timestamp 2022 3 10 0)), Number 12])]\<rparr>)"
  by (simp add: filter_month_def bind_def date_position_def positions_def march_example_def
      is_datetime_def select_rows_def row_date_def cell_datetime_def month_is_def active_def
      strptime_month_March)

lemma range_step_march_example:
  "filter_date_range (Some (Date 2022 2 2, Date 2023 3 10)) march_example
   = Inr (march_example\<lparr>rows := [(0, [Datetime (Stamp (Timestamp 2023 3 1 0)), Number 10]),
        (2, [Datetime (Stamp (Timestamp 2022 3 10 0)), Number 12])]\<rparr>)"
  by (simp add: filter_date_range_def bind_def date_position_def positions_def march_example_def
      is_datetime_def select_rows_def row_date_def cell_datetime_def ge_timestamp_def
      le_timestamp_def to_timestamp_def ts_key_def)

theorem filter_order_irrelevant_witness:
  "mset [ByYear, ByDateRange, ByMonth] = mset [ByDateRange, ByMonth, ByYear]
   \<and> filter_date_range (Some (Date 2022 2 2, Date 2023 3 10)) march_example \<noteq> Inr march_example
   \<and> filter_month (Some ''March'') march_example \<noteq> Inr march_example
   \<and> filter_year (Some ''2023'') march_example \<noteq> Inr march_example
   \<and> filter_data march_example (Some (Date 2022 2 2, Date 2023 3 10)) (Some ''March'') (Some ''2023'')
       = Inr (march_example\<lparr>rows := [(0, [Datetime (Stamp (Timestamp 2023 3 1 0)), Number 10])]\<rparr>)
   \<and> outcome (apply_steps (Some (Date 2022 2 2, Date 2023 3 10)) (Some ''March'') (Some ''2023'')
        [ByYear, ByDateRange, ByMonth] march_example)
     = Some (march_example\<lparr>rows := [(0, [Datetime (Stamp (Timestamp 2023 3 1 0)), Number 10])]\<rparr>)"
proof -
  have h: "mset [ByYear, ByDateRange, ByMonth] = mset [ByDateRange, ByMonth, ByYear]"
    by simp
  have r: "filter_date_range (Some (Date 2022 2 2, Date 2023 3 10)) march_example \<noteq> Inr march_example"
    unfolding range_step_march_example by (simp add: march_example_def)
  have m: "filter_month (Some ''March'') march_example \<noteq> Inr march_example"
    unfolding month_step_march_example by (simp add: march_example_def)
  have y: "filter_year (Some ''2023'') march_example \<noteq> Inr march_example"
    unfolding year_step_march_example by (simp add: march_example_def)
  have o: "outcome (apply_steps (Some (Date 2022 2 2, Date 2023 3 10)) (Some ''March'') (Some ''2023'')
        [ByYear, ByDateRange, ByMonth] march_example)
     = Some (march_example\<lparr>rows := [(0, [Datetime (Stamp (Timestamp 2023 3 1 0)), Number 10])]\<rparr>)"
    using filter_order_irrelevant[OF h, of "Some (Date 2022 2 2, Date 2023 3 10)" "Some ''March''"
        "Some ''2023''" march_example]
    by (simp only: filter_data_march_example_all outcome_def sum.case)
  from h r m y o filter_data_march_example_all show ?thesis by blast
qed

lemma lower_literals:
  "lower ''Date'' = ''date''" "lower ''PRICE'' = ''price''" "lower ''date'' = ''date''"
  "lower ''price'' = ''price''" "lower ''Day'' = ''day''" "lower ''Value'' = ''value''"
  by (simp_all add: lower_def lower_char_def)

lemma columns_setitem:
  "columns (setitem df l vs) = (if l \<in> set (columns df) then columns df else columns df @ [l])"
  by (simp add: setitem_def)

lemma columns_drop_columns: "columns (drop_columns df l) = filter (\<lambda>n. n \<noteq> l) (columns df)"
  by (simp add: drop_columns_def)

lemma columns_reset_index: "columns (reset_index df) = columns df"
  by (simp add: reset_index_def)

lemma length_column: "length (column j df) = length (rows df)"
  by (simp add: column_def)

lemma to_datetime_length: "to_datetime parse s = Inr v \<Longrightarrow> length v = length s"
  by (auto simp: to_datetime_def split: if_splits)

lemma length_to_numeric: "length (to_numeric coerce s) = length s"
  by (simp add: to_numeric_def coerced_def)

lemma length_rows_setitem:
  "length vs = length (rows df) \<Longrightarrow> length (rows (setitem df l vs)) = length (rows df)"
  by (simp add: setitem_def)

lemma length_rows_drop_columns: "length (rows (drop_columns df l)) = length (rows df)"
  by (simp add: drop_columns_def)

lemma date_position_positions:
  "date_position df = Inr j \<Longrightarrow> positions ''date'' (columns df) = [j]"
  by (auto simp: date_position_def split: list.splits if_splits)

lemma sort_values_date_Inr:
  assumes "sort_values_date df = Inr df'"
  shows "\<exists>j. date_position df = Inr j
           \<and> df' = df\<lparr>rows := sort_key (\<lambda>r. datetime_key (row_date j r)) (rows df)\<rparr>"
  using assms by (auto simp: sort_values_date_def bind_eq_Inr)

lemma map_snd_fun_zip:
  "length xs = length ys \<Longrightarrow> map (\<lambda>r. f (snd r)) (zip xs ys) = map f ys"
  by (induction xs ys rule: list_induct2) auto

lemma row_date_reset_index:
  "map (\<lambda>r. datetime_key (row_date j r)) (rows (reset_index df))
   = map (\<lambda>r. datetime_key (row_date j r)) (rows df)"
proof -
  have "map (\<lambda>r. datetime_key (cell_datetime (snd r ! j)))
          (zip [0..<length (rows df)] (map snd (rows df)))
        = map (\<lambda>c. datetime_key (cell_datetime (c ! j))) (map snd (rows df))"
    by (rule map_snd_fun_zip) simp
  then show ?thesis by (simp add: reset_index_def row_date_def o_def)
qed

lemma process_frame_sorted:
  assumes "process_frame parse coerce df0 = Inr df"
  shows "date_sorted df"
proof -
  from assms obtain df2 df3 where s: "sort_values_date df2 = Inr df3" and r: "df = reset_index df3"
    by (auto simp: process_frame_def bind_eq_Inr)
  from sort_values_date_Inr[OF s] obtain j where p: "date_position df2 = Inr j"
    and d: "df3 = df2\<lparr>rows := sort_key (\<lambda>r. datetime_key (row_date j r)) (rows df2)\<rparr>"
    by blast
  have c: "positions ''date'' (columns df) = [j]"
    using date_position_positions[OF p] r d by (simp add: columns_reset_index)
  have "sorted (map (\<lambda>r. datetime_key (row_date j r)) (rows df3))"
    by (simp add: d)
  then have "sorted (map (\<lambda>r. datetime_key (row_date j r)) (rows df))"
    by (simp add: r row_date_reset_index)
  with c show ?thesis by (simp add: date_sorted_def)
qed

lemma load_Some:
  assumes "load_and_process_data parse coerce fs file_path = (e, Some df)"
  shows "\<exists>df0. file_path \<noteq> [] \<and> fs file_path = Some (Inr df0)
            \<and> process_frame parse coerce df0 = Inr df \<and> e = None"
proof -
  from assms have 1: "file_path \<noteq> []" and 2: "file_path \<in> dom fs"
    by (auto simp: load_and_process_data_def split: if_splits)
  from 2 obtain x where x: "fs file_path = Some x" by auto
  from assms 1 2 x have "bind x (process_frame parse coerce) = Inr df \<and> e = None"
    by (auto simp: load_and_process_data_def split: sum.splits)
  with 1 x show ?thesis by (auto simp: bind_eq_Inr)
qed

text \<open>
  Claim C2. Whenever \<^verbatim>\<open>load_and_process_data\<close> returns a frame, the frame is sorted by
  its \<^verbatim>\<open>date\<close> column in non-decreasing order, rows without a date last.
\<close>

theorem load_sorted_by_date:
  assumes "load_and_process_data parse coerce fs file_path = (e, Some df)"
  shows "date_sorted df"
proof -
  from load_Some[OF assms] obtain df0 where "process_frame parse coerce df0 = Inr df" by blast
  then show ?thesis by (rule process_frame_sorted)
qed

text \<open>
  Claim C5. For a path that does not exist, \<^verbatim>\<open>load_and_process_data\<close> returns
  \<^verbatim>\<open>None\<close> and shows no error; \<^verbatim>\<open>None\<close> is no frame, so it differs from every frame
  that a load returns, the frame without rows included.
\<close>

theorem load_absent_file:
  assumes "file_path \<notin> dom fs"
  shows "load_and_process_data parse coerce fs file_path = (None, None)
         \<and> (\<forall>df. snd (load_and_process_data parse coerce fs file_path) \<noteq> Some df)"
  using assms by (simp add: load_and_process_data_def)

lemma strip_copper:
  "strip_columns copper_csv = \<lparr>columns = [''Date'', ''PRICE''], rows = rows copper_csv\<rparr>"
  by (simp add: strip_columns_def copper_csv_def strip_def is_space_def)

lemma copper_date_column:
  "to_datetime example_parse (column 0 \<lparr>columns = [''Date'', ''PRICE''], rows = rows copper_csv\<rparr>)
   = Inr (map Datetime [Stamp (Timestamp 2024 1 5 0), Stamp (Timestamp 2024 1 2 0),
        Stamp (Timestamp 2024 1 3 0), Stamp (Timestamp 2024 1 4 0), Stamp (Timestamp 2024 2 1 0),
        Stamp (Timestamp 2024 1 8 0), Stamp (Timestamp 2024 1 9 0), Stamp (Timestamp 2024 1 10 0),
        Stamp (Timestamp 2024 1 11 0), Stamp (Timestamp 2024 1 12 0)])"
  by (simp add: to_datetime_def column_def copper_csv_def example_parse_def)

lemma normalize_date_copper:
  "normalize_date example_parse (strip_columns copper_csv) = Inr copper_dated"
  unfolding strip_copper normalize_date_def
  apply (simp add: lower_literals positions_def copper_date_column bind_Inr)
  apply (simp add: setitem_def drop_columns_def set_cells_def copper_csv_def copper_dated_def)
  done

lemma normalize_price_copper: "normalize_price example_coerce copper_dated = Inr copper_priced"
  unfolding normalize_price_def
  apply (simp add: copper_dated_def lower_literals positions_def)
  apply (simp add: setitem_def drop_columns_def set_cells_def column_def to_numeric_def coerced_def
      example_coerce_def copper_priced_def)
  done

lemma date_position_copper_priced: "date_position copper_priced = Inr 0"
  by (simp add: date_position_def positions_def copper_priced_def is_datetime_def)

lemma sort_reset_copper:
  "reset_index (copper_priced\<lparr>rows := sort_key (\<lambda>r. datetime_key (row_date 0 r)) (rows copper_priced)\<rparr>)
   = copper_loaded"
  by (simp add: reset_index_def copper_priced_def copper_loaded_def sort_key_def row_date_def
      cell_datetime_def datetime_key_def ts_key_def)

lemma process_frame_copper: "process_frame example_parse example_coerce copper_csv = Inr copper_loaded"
  unfolding process_frame_def normalize_date_copper bind_Inr normalize_price_copper
    sort_values_date_def date_position_copper_priced
  by (rule arg_cong[where f=Inr], rule sort_reset_copper)

lemma load_copper:
  "load_and_process_data example_parse example_coerce example_files ''LME_Copper.csv''
   = (None, Some copper_loaded)"
  by (simp add: load_and_process_data_def example_files_def bind_Inr process_frame_copper)

lemma process_frame_empty:
  "process_frame example_parse example_coerce empty_csv = Inr empty_csv"
  by (simp add: process_frame_def empty_csv_def strip_columns_def strip_def is_space_def
      normalize_date_def lower_literals positions_def to_datetime_def column_def bind_Inr
      setitem_def normalize_price_def to_numeric_def coerced_def sort_values_date_def date_position_def
      reset_index_def)

lemma load_empty:
  "load_and_process_data example_parse example_coerce example_files ''empty.csv''
   = (None, Some empty_csv)"
  by (simp add: load_and_process_data_def example_files_def bind_Inr process_frame_empty)

lemma normalize_date_day_value:
  "normalize_date example_parse (strip_columns day_value_csv)
   = Inr \<lparr>columns = [''Day'', ''Value'', ''date''],
          rows = [(0, [Text ''03/01/2024'', Number 7, Datetime (Stamp (Timestamp 2024 1 3 0))]),
                  (1, [Text ''02/01/2024'', Number 5, Datetime (Stamp (Timestamp 2024 1 2 0))])]\<rparr>"
  by (simp add: day_value_csv_def strip_columns_def strip_def is_space_def
      normalize_date_def lower_literals to_datetime_def column_def example_parse_def bind_Inr
      setitem_def set_cells_def)

lemma process_frame_day_value:
  "process_frame example_parse example_coerce day_value_csv = Inr day_value_loaded"
  unfolding process_frame_def normalize_date_day_value bind_Inr
  by (simp add: normalize_price_def lower_literals bind_Inr sort_values_date_def date_position_def
      positions_def is_datetime_def reset_index_def sort_key_def row_date_def cell_datetime_def
      datetime_key_def ts_key_def day_value_loaded_def)

lemma load_day_value:
  "load_and_process_data example_parse example_coerce example_files ''days.csv''
   = (None, Some day_value_loaded)"
  by (simp add: load_and_process_data_def example_files_def bind_Inr process_frame_day_value)

lemma date_sorted_copper_loaded: "date_sorted copper_loaded"
  by (simp add: date_sorted_def positions_def copper_loaded_def row_date_def cell_datetime_def
      datetime_key_def ts_key_def)

theorem load_sorted_by_date_witness:
  "load_and_process_data example_parse example_coerce example_files ''LME_Copper.csv''
     = (None, Some copper_loaded)
   \<and> date_sorted copper_loaded"
  using load_sorted_by_date[OF load_copper] load_copper by simp

theorem load_absent_file_witness:
  "''LME_Iron.csv'' \<notin> dom example_files
   \<and> load_and_process_data example_parse example_coerce example_files ''LME_Iron.csv'' = (None, None)
   \<and> load_and_process_data example_parse example_coerce example_files ''empty.csv''
       = (None, Some empty_csv)
   \<and> snd (load_and_process_data example_parse example_coerce example_files ''LME_Iron.csv'')
       \<noteq> snd (load_and_process_data example_parse example_coerce example_files ''empty.csv'')"
proof -
  have h: "''LME_Iron.csv'' \<notin> dom example_files"
    by (simp add: example_files_def)
  from load_absent_file[OF h, of example_parse example_coerce] h load_empty
  show ?thesis by simp
qed

lemma columns_strip_columns: "columns (strip_columns df) = map strip (columns df)"
  by (simp add: strip_columns_def)

lemma filter_Cons_mem:
  assumes "filter P xs = y # ys"
  shows "y \<in> set xs \<and> P y"
proof -
  have "y \<in> set (filter P xs)" by (simp add: assms)
  then show ?thesis by simp
qed

lemma normalize_date_columns:
  assumes "normalize_date parse df = Inr df1"
  shows "columns df1 =
          (case filter (\<lambda>col. lower col = ''date'') (columns df) of
             [] \<Rightarrow> columns df @ [''date'']
           | d # _ \<Rightarrow>
               (if d = ''date'' then columns df
                else filter (\<lambda>n. n \<noteq> d)
                       (if ''date'' \<in> set (columns df) then columns df else columns df @ [''date''])))"
proof (cases "filter (\<lambda>col. lower col = ''date'') (columns df)")
  case Nil
  then have "''date'' \<notin> set (columns df)"
    by (auto simp: filter_empty_conv lower_literals)
  with assms Nil show ?thesis
    by (auto simp: normalize_date_def bind_eq_Inr columns_setitem split: if_splits)
next
  case (Cons d ds)
  from filter_Cons_mem[OF Cons] have d: "d \<in> set (columns df)" by simp
  from assms Cons obtain s where
    "df1 = (if d \<noteq> ''date'' then drop_columns (setitem df ''date'' s) d else setitem df ''date'' s)"
    by (auto simp: normalize_date_def bind_eq_Inr Let_def split: list.splits)
  with Cons d show ?thesis
    by (auto simp: columns_setitem columns_drop_columns)
qed

lemma normalize_price_columns:
  assumes "normalize_price coerce df = Inr df2"
  shows "columns df2 =
          (case filter (\<lambda>col. lower col = ''price'') (columns df) of
             [] \<Rightarrow> columns df
           | p # _ \<Rightarrow>
               (if p = ''price'' then columns df
                else filter (\<lambda>n. n \<noteq> p)
                       (if ''price'' \<in> set (columns df) then columns df else columns df @ [''price''])))"
proof (cases "filter (\<lambda>col. lower col = ''price'') (columns df)")
  case Nil
  with assms show ?thesis by (simp add: normalize_price_def)
next
  case (Cons p ps)
  from filter_Cons_mem[OF Cons] have p: "p \<in> set (columns df)" by simp
  from assms Cons obtain s where
    "df2 = (if p \<noteq> ''price'' then drop_columns (setitem df ''price'' s) p else setitem df ''price'' s)"
    by (auto simp: normalize_price_def Let_def split: list.splits)
  with Cons p show ?thesis
    by (auto simp: columns_setitem columns_drop_columns)
qed

lemma lower_date_not_price: "lower c = ''date'' \<Longrightarrow> lower c \<noteq> ''price''"
  by simp

lemma normalize_date_has_date:
  assumes "normalize_date parse df = Inr df1"
  shows "''date'' \<in> set (columns df1)"
  unfolding normalize_date_columns[OF assms]
  by (auto split: list.splits dest: filter_Cons_mem)

lemma normalize_date_drops_header:
  assumes "normalize_date parse df = Inr df1"
    and "filter (\<lambda>col. lower col = ''date'') (columns df) = d # ds" and "d \<noteq> ''date''"
  shows "d \<notin> set (columns df1)"
  unfolding normalize_date_columns[OF assms(1)] using assms(2,3) by simp

lemma normalize_date_price_headers:
  assumes "normalize_date parse df = Inr df1"
  shows "(\<exists>c \<in> set (columns df1). lower c = ''price'') \<longleftrightarrow> (\<exists>c \<in> set (columns df). lower c = ''price'')"
proof (cases "filter (\<lambda>col. lower col = ''date'') (columns df)")
  case Nil
  then show ?thesis
    unfolding normalize_date_columns[OF assms] by (auto simp: lower_literals)
next
  case (Cons d ds)
  from filter_Cons_mem[OF Cons] have d: "lower d = ''date''" by simp
  then have "\<And>c. lower c = ''price'' \<Longrightarrow> c \<noteq> d" by auto
  with Cons show ?thesis
    unfolding normalize_date_columns[OF assms] by (auto simp: lower_literals)
qed

lemma normalize_price_keeps:
  assumes "normalize_price coerce df = Inr df2" and "lower c \<noteq> ''price''"
  shows "c \<in> set (columns df2) \<longleftrightarrow> c \<in> set (columns df)"
proof (cases "filter (\<lambda>col. lower col = ''price'') (columns df)")
  case Nil
  then show ?thesis unfolding normalize_price_columns[OF assms(1)] by simp
next
  case (Cons p ps)
  from filter_Cons_mem[OF Cons] have "lower p = ''price''" by simp
  with assms(2) have "c \<noteq> p" "c \<noteq> ''price''" by (auto simp: lower_literals)
  with Cons show ?thesis
    unfolding normalize_price_columns[OF assms(1)] by auto
qed

lemma normalize_price_has_price:
  assumes "normalize_price coerce df = Inr df2"
  shows "''price'' \<in> set (columns df2) \<longleftrightarrow> (\<exists>c \<in> set (columns df). lower c = ''price'')"
proof (cases "filter (\<lambda>col. lower col = ''price'') (columns df)")
  case Nil
  then have "\<forall>c \<in> set (columns df). lower c \<noteq> ''price''"
    by (simp add: filter_empty_conv)
  with Nil show ?thesis
    unfolding normalize_price_columns[OF assms] by (auto simp: lower_literals)
next
  case (Cons p ps)
  from filter_Cons_mem[OF Cons] have "p \<in> set (columns df)" "lower p = ''price''" by simp_all
  with Cons show ?thesis
    unfolding normalize_price_columns[OF assms] by auto
qed

lemma process_frame_stages:
  assumes "process_frame parse coerce df0 = Inr df"
  shows "\<exists>df1 df2 j. normalize_date parse (strip_columns df0) = Inr df1
           \<and> normalize_price coerce df1 = Inr df2
           \<and> date_position df2 = Inr j
           \<and> df = reset_index (df2\<lparr>rows := sort_key (\<lambda>r. datetime_key (row_date j r)) (rows df2)\<rparr>)"
  using assms by (auto simp: process_frame_def bind_eq_Inr sort_values_date_def)

text \<open>
  Claim C4, amended. A frame that the loader returns has a \<^verbatim>\<open>date\<close> column; it has a
  \<^verbatim>\<open>price\<close> column exactly when some header of the file is \<^verbatim>\<open>price\<close> once stripped and
  put in lower case; and when the date was found under a header that is not literally
  \<^verbatim>\<open>date\<close>, that header is no longer a column.
\<close>

theorem load_canonical_columns:
  assumes "load_and_process_data parse coerce fs file_path = (e, Some df)"
  shows "\<exists>df0. fs file_path = Some (Inr df0)
           \<and> ''date'' \<in> set (columns df)
           \<and> (''price'' \<in> set (columns df) \<longleftrightarrow> (\<exists>c \<in> set (columns df0). lower (strip c) = ''price''))
           \<and> (\<forall>d. date_header df0 = Some d \<and> d \<noteq> ''date'' \<longrightarrow> d \<notin> set (columns df))"
proof -
  from load_Some[OF assms] obtain df0 where f: "fs file_path = Some (Inr df0)"
    and p: "process_frame parse coerce df0 = Inr df" by blast
  from process_frame_stages[OF p] obtain df1 df2 j where
    1: "normalize_date parse (strip_columns df0) = Inr df1" and
    2: "normalize_price coerce df1 = Inr df2" and
    3: "df = reset_index (df2\<lparr>rows := sort_key (\<lambda>r. datetime_key (row_date j r)) (rows df2)\<rparr>)"
    by blast
  have c: "columns df = columns df2" by (simp add: 3 columns_reset_index)
  have a: "''date'' \<in> set (columns df)"
    using normalize_date_has_date[OF 1] normalize_price_keeps[OF 2, of "''date''"]
    by (simp add: c lower_literals)
  have b: "''price'' \<in> set (columns df) \<longleftrightarrow> (\<exists>c \<in> set (columns df0). lower (strip c) = ''price'')"
    using normalize_price_has_price[OF 2] normalize_date_price_headers[OF 1]
    by (simp add: c columns_strip_columns)
  have d: "d \<notin> set (columns df)" if h: "date_header df0 = Some d" and n: "d \<noteq> ''date''" for d
  proof -
    from h obtain ds where fl: "filter (\<lambda>col. lower col = ''date'') (columns (strip_columns df0)) = d # ds"
      by (auto simp: date_header_def columns_strip_columns split: list.splits)
    from filter_Cons_mem[OF fl] have "lower d \<noteq> ''price''" by simp
    from normalize_price_keeps[OF 2 this] normalize_date_drops_header[OF 1 fl n]
    show ?thesis by (simp add: c)
  qed
  from f a b d show ?thesis by blast
qed

theorem load_canonical_columns_counterexample:
  "load_and_process_data example_parse example_coerce example_files ''days.csv''
     = (None, Some day_value_loaded)
   \<and> date_header day_value_csv = None
   \<and> ''price'' \<notin> set (columns day_value_loaded)
   \<and> ''Day'' \<in> set (columns day_value_loaded)"
  by (simp add: load_day_value date_header_def day_value_csv_def day_value_loaded_def
      strip_def is_space_def lower_literals)

theorem load_canonical_columns_witness:
  "load_and_process_data example_parse example_coerce example_files ''LME_Copper.csv''
     = (None, Some copper_loaded)
   \<and> date_header copper_csv = Some ''Date''
   \<and> ''date'' \<in> set (columns copper_loaded)
   \<and> ''price'' \<in> set (columns copper_loaded)
   \<and> ''Date'' \<notin> set (columns copper_loaded)"
proof -
  have h: "date_header copper_csv = Some ''Date''"
    by (simp add: date_header_def copper_csv_def strip_def is_space_def lower_literals)
  have p: "\<exists>c \<in> set (columns copper_csv). lower (strip c) = ''price''"
    by (simp add: copper_csv_def strip_def is_space_def lower_literals)
  have f: "example_files ''LME_Copper.csv'' = Some (Inr copper_csv)"
    by (simp add: example_files_def)
  from load_canonical_columns[OF load_copper] f h p
  have "''date'' \<in> set (columns copper_loaded) \<and> ''price'' \<in> set (columns copper_loaded)
        \<and> ''Date'' \<notin> set (columns copper_loaded)"
    by auto
  with load_copper h show ?thesis by simp
qed

lemma rebind_props:
  assumes "rebind guard step (h, r) = (h', res)" and "r < length h"
    and "guard \<or> step (h ! r) = Inr (h ! r)"
  shows "prefix h h'"
    and "\<And>e. res = Inl e \<Longrightarrow> step (h ! r) = Inl e"
    and "\<And>r'. res = Inr r' \<Longrightarrow> r \<le> r' \<and> r' < length h' \<and> step (h ! r) = Inr (h' ! r')"
  using assms
  by (auto simp: rebind_def new_frame_def nth_append split: if_splits sum.splits)

lemma inactive_steps:
  "date_range \<noteq> None \<or> filter_date_range date_range x = Inr x"
  "active month_filter \<or> filter_month month_filter x = Inr x"
  "active year_filter \<or> filter_year year_filter x = Inr x"
  by (cases date_range) (simp_all add: filter_date_range_def filter_month_def filter_year_def)

text \<open>
  Claim C9. A call of \<^verbatim>\<open>filter_data\<close> leaves every object of the store as it was, the
  frame passed in among them, whether it returns or raises; the reference it returns is
  to an object that did not exist before the call, so it is no alias of the frame passed
  in; and that object is the frame that \<open>filter_data\<close> computes.
\<close>

theorem filter_data_never_mutates:
  assumes "df < length h"
    and "filter_data_store h df date_range month_filter year_filter = (h', res)"
  shows "prefix h h' \<and> h' ! df = h ! df
         \<and> (case res of
              Inl e \<Rightarrow> filter_data (h ! df) date_range month_filter year_filter = Inl e
            | Inr r \<Rightarrow> length h \<le> r \<and> r < length h' \<and> r \<noteq> df
                  \<and> filter_data (h ! df) date_range month_filter year_filter = Inr (h' ! r))"
proof -
  let ?h0 = "h @ [h ! df]"
  let ?r0 = "length h"
  have x0: "?h0 ! ?r0 = h ! df" by simp
  have p0: "prefix h ?h0" by simp
  obtain h1 res1 where s1: "rebind (date_range \<noteq> None) (filter_date_range date_range) (?h0, ?r0) = (h1, res1)"
    by (cases "rebind (date_range \<noteq> None) (filter_date_range date_range) (?h0, ?r0)")
  have a1: "?r0 < length ?h0" by simp
  note P1 = rebind_props[OF s1 a1 inactive_steps(1)]
  have p1: "prefix h h1" by (rule prefix_order.trans[OF p0 P1(1)])
  have keep: "prefix h g \<Longrightarrow> g ! df = h ! df" for g
    using assms(1) by (auto simp: prefix_def nth_append)
  show ?thesis
  proof (cases res1)
    case (Inl e)
    with assms(2) s1 have "h' = h1" "res = Inl e"
      by (auto simp: filter_data_store_def new_frame_def)
    moreover from P1(2)[OF Inl] have "filter_date_range date_range (h ! df) = Inl e" by simp
    ultimately show ?thesis
      using p1 keep[OF p1] by (simp add: filter_data_def bind_Inl)
  next
    case (Inr r1)
    from P1(3)[OF Inr] have r1: "?r0 \<le> r1" "r1 < length h1"
      and f1: "filter_date_range date_range (h ! df) = Inr (h1 ! r1)" by simp_all
    obtain h2 res2 where s2: "rebind (active month_filter) (filter_month month_filter) (h1, r1) = (h2, res2)"
      by (cases "rebind (active month_filter) (filter_month month_filter) (h1, r1)")
    note P2 = rebind_props[OF s2 r1(2) inactive_steps(2)]
    have p2: "prefix h h2" by (rule prefix_order.trans[OF p1 P2(1)])
    show ?thesis
    proof (cases res2)
      case (Inl e)
      with assms(2) s1 s2 Inr have "h' = h2" "res = Inl e"
        by (auto simp: filter_data_store_def new_frame_def)
      moreover from P2(2)[OF Inl] have "filter_month month_filter (h1 ! r1) = Inl e" by simp
      ultimately show ?thesis
        using p2 keep[OF p2] f1 by (simp add: filter_data_def bind_Inl bind_Inr)
    next
      case r2: (Inr r2)
      from P2(3)[OF r2] have r2': "r1 \<le> r2" "r2 < length h2"
        and f2: "filter_month month_filter (h1 ! r1) = Inr (h2 ! r2)" by simp_all
      from assms(2) s1 s2 Inr r2
      have s3: "rebind (active year_filter) (filter_year year_filter) (h2, r2) = (h', res)"
        by (auto simp: filter_data_store_def new_frame_def)
      note P3 = rebind_props[OF s3 r2'(2) inactive_steps(3)]
      have p3: "prefix h h'" by (rule prefix_order.trans[OF p2 P3(1)])
      have fd: "filter_data (h ! df) date_range month_filter year_filter
                = filter_year year_filter (h2 ! r2)"
        by (simp add: filter_data_def f1 f2 bind_Inr)
      show ?thesis
      proof (cases res)
        case (Inl e)
        from P3(2)[OF Inl] show ?thesis using p3 keep[OF p3] Inl fd by simp
      next
        case (Inr r)
        from P3(3)[OF Inr] have "r2 \<le> r" "r < length h'"
          "filter_year year_filter (h2 ! r2) = Inr (h' ! r)" by simp_all
        with r1 r2' assms(1) show ?thesis using p3 keep[OF p3] Inr fd by simp
      qed
    qed
  qed
qed

theorem filter_data_never_mutates_witness:
  "(0::nat) < length [sorted_example]
   \<and> filter_data_store [sorted_example] 0 (Some (Date 2023 2 2, Date 2023 3 15)) (Some ''All'') None
     = ([sorted_example, sorted_example,
         sorted_example\<lparr>rows := [(1, [Number 6, Datetime (Stamp (Timestamp 2023 3 1 0))]),
              (2, [Number 7, Datetime (Stamp (Timestamp 2023 3 15 0))])]\<rparr>], Inr 2)
   \<and> prefix [sorted_example] [sorted_example, sorted_example,
         sorted_example\<lparr>rows := [(1, [Number 6, Datetime (Stamp (Timestamp 2023 3 1 0))]),
              (2, [Number 7, Datetime (Stamp (Timestamp 2023 3 15 0))])]\<rparr>]
   \<and> filter_data sorted_example (Some (Date 2023 2 2, Date 2023 3 15)) (Some ''All'') None
     = Inr (sorted_example\<lparr>rows := [(1, [Number 6, Datetime (Stamp (Timestamp 2023 3 1 0))]),
              (2, [Number 7, Datetime (Stamp (Timestamp 2023 3 15 0))])]\<rparr>)"
proof -
  have l: "(0::nat) < length [sorted_example]" by simp
  have e: "filter_data_store [sorted_example] 0 (Some (Date 2023 2 2, Date 2023 3 15)) (Some ''All'') None
     = ([sorted_example, sorted_example,
         sorted_example\<lparr>rows := [(1, [Number 6, Datetime (Stamp (Timestamp 2023 3 1 0))]),
              (2, [Number 7, Datetime (Stamp (Timestamp 2023 3 15 0))])]\<rparr>], Inr 2)"
    by (simp add: filter_data_store_def new_frame_def rebind_def range_step_sorted_example active_def)
  from filter_data_never_mutates[OF l e] l e show ?thesis by simp
qed

lemma zip_map_zip:
  "length r = length cs \<Longrightarrow> zip cs (map f (zip cs r)) = map (\<lambda>(n, c). (n, f (n, c))) (zip cs r)"
  by (induction r cs rule: list_induct2) auto

lemma zip_set_cells:
  assumes "length r = length cs"
  shows "zip (if l \<in> set cs then cs else cs @ [l]) (set_cells cs l v r)
         = (if l \<in> set cs then map (\<lambda>(n, c). (n, if n = l then v else c)) (zip cs r)
            else zip cs r @ [(l, v)])"
  using assms by (auto simp: set_cells_def zip_map_zip split_def)

lemma length_set_cells:
  "length r = length cs \<Longrightarrow>
   length (set_cells cs l v r) = length (if l \<in> set cs then cs else cs @ [l])"
  by (simp add: set_cells_def)

lemma zip_fst_notin: "l \<notin> set cs \<Longrightarrow> filter (\<lambda>(n, c). n = l) (zip cs r) = []"
  by (auto simp: filter_empty_conv dest: set_zip_leftD)

lemma cells_at_set_cells_same:
  assumes "length r = length cs"
  shows "set (cells_at l (if l \<in> set cs then cs else cs @ [l]) (set_cells cs l v r)) = {v}"
proof (cases "l \<in> set cs")
  case True
  then obtain j where j: "j < length cs" "cs ! j = l" by (auto simp: in_set_conv_nth)
  with assms have m: "(l, r ! j) \<in> set (zip cs r)" by (auto simp: set_zip)
  let ?g = "\<lambda>(n, c). (n, if n = l then v else c)"
  have e: "cells_at l (if l \<in> set cs then cs else cs @ [l]) (set_cells cs l v r)
           = map snd (filter (\<lambda>(n, c). n = l) (map ?g (zip cs r)))"
    unfolding cells_at_def zip_set_cells[OF assms] using True by simp
  have "(l, v) \<in> ?g ` set (zip cs r)" using m by force
  then have "(l, v) \<in> set (filter (\<lambda>(n, c). n = l) (map ?g (zip cs r)))" by simp
  then have 1: "v \<in> set (map snd (filter (\<lambda>(n, c). n = l) (map ?g (zip cs r))))" by force
  have 2: "\<forall>c \<in> set (map snd (filter (\<lambda>(n, c). n = l) (map ?g (zip cs r)))). c = v"
    by (auto simp: split_def)
  from 1 2 show ?thesis unfolding e by blast
next
  case False
  then show ?thesis
    unfolding cells_at_def zip_set_cells[OF assms] by (simp add: zip_fst_notin)
qed

lemma cells_at_set_cells_other:
  assumes "length r = length cs" and "l' \<noteq> l"
  shows "cells_at l' (if l \<in> set cs then cs else cs @ [l]) (set_cells cs l v r) = cells_at l' cs r"
  unfolding cells_at_def zip_set_cells[OF assms(1)] using assms(2)
  by (auto simp: filter_map comp_def split_def intro!: arg_cong[where f="map snd"] filter_cong)

lemma zip_dropped:
  assumes "length r = length cs"
  shows "zip (filter (\<lambda>n. n \<noteq> d) cs) (map snd (filter (\<lambda>(n, c). n \<noteq> d) (zip cs r)))
         = filter (\<lambda>(n, c). n \<noteq> d) (zip cs r)"
  using assms by (induction r cs rule: list_induct2) auto

lemma length_dropped:
  assumes "length r = length cs"
  shows "length (map snd (filter (\<lambda>(n, c). n \<noteq> d) (zip cs r))) = length (filter (\<lambda>n. n \<noteq> d) cs)"
  using assms by (induction r cs rule: list_induct2) auto

lemma cells_at_dropped:
  assumes "length r = length cs" and "l' \<noteq> d"
  shows "cells_at l' (filter (\<lambda>n. n \<noteq> d) cs) (map snd (filter (\<lambda>(n, c). n \<noteq> d) (zip cs r)))
         = cells_at l' cs r"
  unfolding cells_at_def zip_dropped[OF assms(1)] using assms(2)
  by (auto simp: split_def intro!: arg_cong[where f="map snd"] filter_cong)

lemma length_with_column:
  assumes "length r = length cs"
  shows "length (with_column cs l d v r) = length (with_label cs l d)"
proof -
  let ?cs = "if l \<in> set cs then cs else cs @ [l]"
  have a: "length (set_cells cs l v r) = length ?cs" by (rule length_set_cells[OF assms])
  have "length (map snd (filter (\<lambda>(n, c). n \<noteq> d) (zip ?cs (set_cells cs l v r))))
        = length (filter (\<lambda>n. n \<noteq> d) ?cs)"
    by (rule length_dropped[OF a])
  with a show ?thesis by (simp add: with_column_def with_label_def)
qed

lemma cells_at_with_column_same:
  assumes "length r = length cs"
  shows "set (cells_at l (with_label cs l d) (with_column cs l d v r)) = {v}"
proof (cases "d = l")
  case True
  then show ?thesis
    using cells_at_set_cells_same[OF assms, of l v] by (simp add: with_column_def with_label_def)
next
  case False
  let ?cs = "if l \<in> set cs then cs else cs @ [l]"
  have a: "length (set_cells cs l v r) = length ?cs" by (rule length_set_cells[OF assms])
  have n: "l \<noteq> d" using False by simp
  have "cells_at l (filter (\<lambda>n. n \<noteq> d) ?cs)
          (map snd (filter (\<lambda>(n, c). n \<noteq> d) (zip ?cs (set_cells cs l v r))))
        = cells_at l ?cs (set_cells cs l v r)"
    by (rule cells_at_dropped[OF a n])
  with False cells_at_set_cells_same[OF assms, of l v] show ?thesis
    by (simp add: with_column_def with_label_def)
qed

lemma cells_at_with_column_other:
  assumes "length r = length cs" and "l' \<noteq> l" and "l' \<noteq> d"
  shows "cells_at l' (with_label cs l d) (with_column cs l d v r) = cells_at l' cs r"
proof (cases "d = l")
  case True
  then show ?thesis
    using cells_at_set_cells_other[OF assms(1,2), of v] by (simp add: with_column_def with_label_def)
next
  case False
  let ?cs = "if l \<in> set cs then cs else cs @ [l]"
  have a: "length (set_cells cs l v r) = length ?cs" by (rule length_set_cells[OF assms(1)])
  have "cells_at l' (filter (\<lambda>n. n \<noteq> d) ?cs)
          (map snd (filter (\<lambda>(n, c). n \<noteq> d) (zip ?cs (set_cells cs l v r))))
        = cells_at l' ?cs (set_cells cs l v r)"
    by (rule cells_at_dropped[OF a assms(3)])
  with False cells_at_set_cells_other[OF assms(1,2), of v] show ?thesis
    by (simp add: with_column_def with_label_def)
qed

lemma nth_in_cells_at:
  assumes "length r = length cs" and "j < length cs" and "cs ! j = l"
  shows "r ! j \<in> set (cells_at l cs r)"
proof -
  from assms have "(l, r ! j) \<in> set (zip cs r)" by (auto simp: set_zip)
  then show ?thesis by (force simp: cells_at_def)
qed

lemma length_cells_at:
  assumes "length r = length cs"
  shows "length (cells_at l cs r) = length (filter (\<lambda>n. n = l) cs)"
  using assms by (induction r cs rule: list_induct2) (auto simp: cells_at_def)

lemma length_positions: "length (positions l cs) = length (filter (\<lambda>n. n = l) cs)"
proof -
  have "filter (\<lambda>n. n = l) (map ((!) cs) [0..<length cs])
        = map ((!) cs) (filter (\<lambda>j. cs ! j = l) [0..<length cs])"
    by (simp add: filter_map comp_def)
  then have "length (filter (\<lambda>n. n = l) (map ((!) cs) [0..<length cs])) = length (positions l cs)"
    by (simp add: positions_def)
  then show ?thesis by (simp add: map_nth)
qed

lemma positions_single:
  assumes "positions l cs = [k]"
  shows "k < length cs \<and> cs ! k = l"
proof -
  have "k \<in> set (positions l cs)" by (simp add: assms)
  then show ?thesis by (simp add: positions_def)
qed

lemma cells_at_single:
  assumes "positions l cs = [k]" and "length r = length cs"
  shows "cells_at l cs r = [r ! k]"
proof -
  have "length (cells_at l cs r) = 1"
    using length_cells_at[OF assms(2), of l] length_positions[of l cs] assms(1) by simp
  then obtain c where c: "cells_at l cs r = [c]"
    by (cases "cells_at l cs r") auto
  from positions_single[OF assms(1)] nth_in_cells_at[OF assms(2)]
  have "r ! k \<in> set (cells_at l cs r)" by blast
  with c show ?thesis by simp
qed

lemma setitem_map:
  "setitem df l (map f (rows df))
   = \<lparr>columns = (if l \<in> set (columns df) then columns df else columns df @ [l]),
      rows = map (\<lambda>r. (fst r, set_cells (columns df) l (f r) (snd r))) (rows df)\<rparr>"
  by (simp add: setitem_def zip_map2 zip_same_conv_map comp_def)

lemma stage_frame:
  "(if d \<noteq> l then drop_columns (setitem df l (map f (rows df))) d
    else setitem df l (map f (rows df)))
   = \<lparr>columns = with_label (columns df) l d,
      rows = map (\<lambda>r. (fst r, with_column (columns df) l d (f r) (snd r))) (rows df)\<rparr>"
  by (simp add: setitem_map drop_columns_def with_label_def with_column_def comp_def)

lemma to_datetime_Inr:
  "to_datetime parse s = Inr v \<Longrightarrow> v = map (\<lambda>c. Datetime (the (parse s c))) s"
  by (auto simp: to_datetime_def split: if_splits)

lemma first_position:
  assumes "filter P cs = p # ps" and "filter (\<lambda>j. P (cs ! j)) [0..<length cs] = k # ks"
  shows "cs ! k = p"
proof -
  have "filter P (map ((!) cs) [0..<length cs]) = map ((!) cs) (filter (\<lambda>j. P (cs ! j)) [0..<length cs])"
    by (simp add: filter_map comp_def)
  then have "filter P cs = map ((!) cs) (k # ks)"
    by (simp add: map_nth assms(2))
  with assms(1) show ?thesis by simp
qed

lemma filter_index_Nil:
  "filter P cs = [] \<Longrightarrow> filter (\<lambda>i. P (cs ! i)) [0..<length cs] = []"
  by (auto simp: filter_empty_conv)

lemma first_index_positions:
  assumes c: "filter P cs = d # ds" and p: "positions d cs = [j]"
  shows "\<exists>ks. filter (\<lambda>i. P (cs ! i)) [0..<length cs] = j # ks"
proof (cases "filter (\<lambda>i. P (cs ! i)) [0..<length cs]")
  case Nil
  from filter_Cons_mem[OF c] obtain i where i: "i < length cs" "cs ! i = d" and "P d"
    by (auto simp: in_set_conv_nth)
  then have "i \<in> set (filter (\<lambda>i. P (cs ! i)) [0..<length cs])" by simp
  with Nil show ?thesis by simp
next
  case (Cons k ks)
  from first_position[OF c Cons] have "cs ! k = d" .
  moreover have "k \<in> set (filter (\<lambda>i. P (cs ! i)) [0..<length cs])"
    unfolding Cons by simp
  then have "k < length cs" by simp
  ultimately have "k \<in> set (positions d cs)" by (simp add: positions_def)
  with p have "k = j" by simp
  with Cons show ?thesis by simp
qed

lemma normalize_date_Inr:
  assumes "normalize_date parse df = Inr df1"
  shows "\<exists>d j. lower d = ''date''
           \<and> (case filter (\<lambda>i. lower (columns df ! i) = ''date'') [0..<length (columns df)] of
                 [] \<Rightarrow> 0 | k # _ \<Rightarrow> k) = j
           \<and> to_datetime parse (column j df)
               = Inr (map (\<lambda>r. Datetime (the (parse (column j df) (snd r ! j)))) (rows df))
           \<and> df1 = \<lparr>columns = with_label (columns df) ''date'' d,
                    rows = map (\<lambda>r. (fst r, with_column (columns df) ''date'' d
                                        (Datetime (the (parse (column j df) (snd r ! j)))) (snd r)))
                             (rows df)\<rparr>"
proof (cases "filter (\<lambda>col. lower col = ''date'') (columns df)")
  case Nil
  with assms obtain s where s: "to_datetime parse (column 0 df) = Inr s"
    and d: "df1 = setitem df ''date'' s"
    by (auto simp: normalize_date_def bind_eq_Inr split: if_splits)
  let ?f = "\<lambda>r. the (parse (column 0 df) (snd r ! 0))"
  have e: "s = map (\<lambda>r. Datetime (?f r)) (rows df)"
    using to_datetime_Inr[OF s] by (simp add: column_def comp_def)
  have i: "(case filter (\<lambda>i. lower (columns df ! i) = ''date'') [0..<length (columns df)] of
                 [] \<Rightarrow> 0 | k # _ \<Rightarrow> k) = (0::nat)"
    using filter_index_Nil[OF Nil] by simp
  have t: "to_datetime parse (column 0 df) = Inr (map (\<lambda>r. Datetime (?f r)) (rows df))"
    using s unfolding e .
  from d e stage_frame[of "''date''" "''date''" df "\<lambda>r. Datetime (?f r)"]
  have "df1 = \<lparr>columns = with_label (columns df) ''date'' ''date'',
               rows = map (\<lambda>r. (fst r, with_column (columns df) ''date'' ''date'' (Datetime (?f r)) (snd r)))
                        (rows df)\<rparr>"
    by simp
  with i t show ?thesis
    by (intro exI[where x="''date''"] exI[where x="0::nat"] conjI) (simp_all add: lower_literals)
next
  case (Cons d ds)
  from filter_Cons_mem[OF Cons] have l: "lower d = ''date''" by simp
  from assms Cons obtain j s where p: "positions d (columns df) = [j]"
    and s: "to_datetime parse (column j df) = Inr s"
    and d: "df1 = (if d \<noteq> ''date'' then drop_columns (setitem df ''date'' s) d
                  else setitem df ''date'' s)"
    by (auto simp: normalize_date_def bind_eq_Inr Let_def split: list.splits)
  let ?f = "\<lambda>r. the (parse (column j df) (snd r ! j))"
  have e: "s = map (\<lambda>r. Datetime (?f r)) (rows df)"
    using to_datetime_Inr[OF s] by (simp add: column_def comp_def)
  from first_index_positions[OF Cons p]
  have i: "(case filter (\<lambda>i. lower (columns df ! i) = ''date'') [0..<length (columns df)] of
                 [] \<Rightarrow> 0 | k # _ \<Rightarrow> k) = j"
    by auto
  have t: "to_datetime parse (column j df) = Inr (map (\<lambda>r. Datetime (?f r)) (rows df))"
    using s unfolding e .
  have "df1 = (if d \<noteq> ''date''
               then drop_columns (setitem df ''date'' (map (\<lambda>r. Datetime (?f r)) (rows df))) d
               else setitem df ''date'' (map (\<lambda>r. Datetime (?f r)) (rows df)))"
    unfolding d e ..
  then have "df1 = \<lparr>columns = with_label (columns df) ''date'' d,
               rows = map (\<lambda>r. (fst r, with_column (columns df) ''date'' d (Datetime (?f r)) (snd r)))
                        (rows df)\<rparr>"
    unfolding stage_frame .
  with l i t show ?thesis
    by (intro exI[where x=d] exI[where x=j] conjI) simp_all
qed

lemma normalize_price_cases:
  "normalize_price coerce df =
     (case filter (\<lambda>col. lower col = ''price'') (columns df) of
        [] \<Rightarrow> Inr df
      | p # ps \<Rightarrow>
          (case positions p (columns df) of
             [] \<Rightarrow> Inl TypeError
           | [k] \<Rightarrow> Inr \<lparr>columns = with_label (columns df) ''price'' p,
                         rows = map (\<lambda>r. (fst r, with_column (columns df) ''price'' p
                                               (coerced coerce (snd r ! k)) (snd r))) (rows df)\<rparr>
           | k # k' # ks \<Rightarrow> Inl TypeError))"
proof (cases "filter (\<lambda>col. lower col = ''price'') (columns df)")
  case Nil
  then show ?thesis by (simp add: normalize_price_def)
next
  case (Cons p ps)
  show ?thesis
  proof (cases "positions p (columns df)")
    case Nil
    with Cons show ?thesis by (simp add: normalize_price_def)
  next
    case kk: (Cons k ks)
    show ?thesis
    proof (cases ks)
      case Nil
      have "to_numeric coerce (column k df) = map (\<lambda>r. coerced coerce (snd r ! k)) (rows df)"
        by (simp add: to_numeric_def column_def comp_def)
      then have "normalize_price coerce df
            = Inr (if p \<noteq> ''price''
                   then drop_columns
                          (setitem df ''price'' (map (\<lambda>r. coerced coerce (snd r ! k)) (rows df))) p
                   else setitem df ''price'' (map (\<lambda>r. coerced coerce (snd r ! k)) (rows df)))"
        using Cons kk Nil by (simp add: normalize_price_def Let_def)
      then show ?thesis
        unfolding stage_frame using Cons kk Nil by simp
    next
      case (Cons k' ks')
      with \<open>filter (\<lambda>col. lower col = ''price'') (columns df) = p # ps\<close> kk show ?thesis
        by (simp add: normalize_price_def)
    qed
  qed
qed

lemma rectangular_strip_columns: "rectangular df \<Longrightarrow> rectangular (strip_columns df)"
  by (simp add: rectangular_def strip_columns_def)

lemma filter_with_label:
  assumes "\<not> P l" and "\<not> P d"
  shows "filter P (with_label cs l d) = filter P cs"
proof -
  have "filter P (filter (\<lambda>n. n \<noteq> d) xs) = filter P xs" for xs
    using assms(2) by (induction xs) auto
  with assms(1) show ?thesis by (simp add: with_label_def)
qed

lemma date_not_price_label: "lower p = ''price'' \<Longrightarrow> ''date'' \<noteq> p"
  using lower_literals(3) by auto

lemma price_stage:
  assumes rect1: "rectangular df1"
    and dates: "\<forall>r \<in> set (rows df1). \<forall>c \<in> set (cells_at ''date'' (columns df1) (snd r)). is_datetime c"
    and np': "normalize_price coerce' df1 = Inr df2'"
    and dp': "date_position df2' = Inr j"
  shows "\<exists>df2. normalize_price coerce df1 = Inr df2 \<and> columns df2 = columns df2'
           \<and> date_position df2 = Inr j \<and> length (rows df2) = length (rows df1)
           \<and> (\<exists>jd. positions ''date'' (columns df1) = [jd] \<and> column j df2 = column jd df1)
           \<and> (\<forall>p ps k jp. filter (\<lambda>col. lower col = ''price'') (columns df1) = p # ps
                  \<and> positions p (columns df1) = [k]
                  \<and> jp < length (columns df2) \<and> columns df2 ! jp = ''price''
                \<longrightarrow> column jp df2 = map (coerced coerce) (column k df1))"
proof (cases "filter (\<lambda>col. lower col = ''price'') (columns df1)")
  case Nil
  then have "normalize_price coerce df1 = Inr df1" "normalize_price coerce' df1 = Inr df1"
    by (simp_all add: normalize_price_cases)
  moreover from np' \<open>normalize_price coerce' df1 = Inr df1\<close> have "df2' = df1" by simp
  moreover from this date_position_positions[OF dp'] have "positions ''date'' (columns df1) = [j]"
    by simp
  ultimately show ?thesis using dp' Nil by simp
next
  case (Cons p ps)
  from filter_Cons_mem[OF Cons] have lp: "lower p = ''price''" by simp
  let ?cs1 = "columns df1"
  let ?cs2 = "with_label ?cs1 ''price'' p"
  from np' Cons obtain k where k: "positions p ?cs1 = [k]"
    by (auto simp: normalize_price_cases split: list.splits)
  let ?g = "\<lambda>co r. with_column ?cs1 ''price'' p (coerced co (snd r ! k)) (snd r)"
  let ?df2 = "\<lambda>co. \<lparr>columns = ?cs2, rows = map (\<lambda>r. (fst r, ?g co r)) (rows df1)\<rparr>"
  have np: "normalize_price co df1 = Inr (?df2 co)" for co
    using Cons k by (simp add: normalize_price_cases)
  from np[of coerce'] np' have e': "df2' = ?df2 coerce'" by simp
  have pos: "positions ''date'' ?cs2 = [j]"
    using date_position_positions[OF dp'] by (simp add: e')
  from positions_single[OF pos] have j: "j < length ?cs2" "?cs2 ! j = ''date''" by simp_all
  have len1: "length (snd r) = length ?cs1" if "r \<in> set (rows df1)" for r
    using rect1 that by (simp add: rectangular_def)
  have cell: "j < length (?g coerce r) \<and> is_datetime (?g coerce r ! j)" if r: "r \<in> set (rows df1)" for r
  proof -
    have l: "length (?g coerce r) = length ?cs2"
      by (rule length_with_column[OF len1[OF r]])
    have "?g coerce r ! j \<in> set (cells_at ''date'' ?cs2 (?g coerce r))"
      by (rule nth_in_cells_at[OF l j])
    also have "cells_at ''date'' ?cs2 (?g coerce r) = cells_at ''date'' ?cs1 (snd r)"
      by (rule cells_at_with_column_other[OF len1[OF r]]) (simp_all add: date_not_price_label[OF lp])
    finally show ?thesis using dates r l j(1) by simp
  qed
  have dp: "date_position (?df2 coerce) = Inr j"
    using pos cell by (simp add: date_position_def)
  have "length (positions ''date'' ?cs1) = length (positions ''date'' ?cs2)"
    unfolding length_positions using date_not_price_label[OF lp]
    by (simp add: filter_with_label)
  with pos obtain jd where jd: "positions ''date'' ?cs1 = [jd]"
    by (cases "positions ''date'' ?cs1") auto
  have keep: "column j (?df2 coerce) = column jd df1"
  proof -
    have "?g coerce r ! j = snd r ! jd" if r: "r \<in> set (rows df1)" for r
    proof -
      have l: "length (?g coerce r) = length ?cs2"
        by (rule length_with_column[OF len1[OF r]])
      have "?g coerce r ! j \<in> set (cells_at ''date'' ?cs2 (?g coerce r))"
        by (rule nth_in_cells_at[OF l j])
      also have "cells_at ''date'' ?cs2 (?g coerce r) = cells_at ''date'' ?cs1 (snd r)"
        by (rule cells_at_with_column_other[OF len1[OF r]]) (simp_all add: date_not_price_label[OF lp])
      also have "\<dots> = [snd r ! jd]"
        by (rule cells_at_single[OF jd len1[OF r]])
      finally show ?thesis by simp
    qed
    then show ?thesis by (simp add: column_def comp_def)
  qed
  have price: "column jp (?df2 coerce) = map (coerced coerce) (column k df1)"
    if jp: "jp < length ?cs2" "?cs2 ! jp = ''price''" for jp
  proof -
    have "?g coerce r ! jp = coerced coerce (snd r ! k)" if r: "r \<in> set (rows df1)" for r
    proof -
      have l: "length (?g coerce r) = length ?cs2"
        by (rule length_with_column[OF len1[OF r]])
      have "?g coerce r ! jp \<in> set (cells_at ''price'' ?cs2 (?g coerce r))"
        by (rule nth_in_cells_at[OF l jp])
      also have "set (cells_at ''price'' ?cs2 (?g coerce r)) = {coerced coerce (snd r ! k)}"
        by (rule cells_at_with_column_same[OF len1[OF r]])
      finally show ?thesis by simp
    qed
    then show ?thesis by (simp add: column_def comp_def)
  qed
  show ?thesis
  proof (intro exI[where x="?df2 coerce"] conjI allI impI)
    show "normalize_price coerce df1 = Inr (?df2 coerce)" by (rule np)
    show "columns (?df2 coerce) = columns df2'" by (simp add: e')
    show "date_position (?df2 coerce) = Inr j" by (rule dp)
    show "length (rows (?df2 coerce)) = length (rows df1)" by simp
    show "\<exists>jd. positions ''date'' (columns df1) = [jd] \<and> column j (?df2 coerce) = column jd df1"
      using jd keep by blast
  next
    fix p' ps' k' jp
    assume a: "filter (\<lambda>col. lower col = ''price'') (columns df1) = p' # ps'
                \<and> positions p' (columns df1) = [k']
                \<and> jp < length (columns (?df2 coerce)) \<and> columns (?df2 coerce) ! jp = ''price''"
    with Cons k have "k' = k" by simp
    with a price[of jp] show "column jp (?df2 coerce) = map (coerced coerce) (column k' df1)" by simp
  qed
qed

lemma date_stage:
  assumes rect: "rectangular df" and nd: "normalize_date parse df = Inr df1"
  shows "rectangular df1"
    and "\<forall>r \<in> set (rows df1). \<forall>c \<in> set (cells_at ''date'' (columns df1) (snd r)). is_datetime c"
    and "length (rows df1) = length (rows df)"
    and "filter (\<lambda>col. lower col = ''price'') (columns df1)
         = filter (\<lambda>col. lower col = ''price'') (columns df)"
    and "\<And>p k1 k0. lower p = ''price'' \<Longrightarrow> positions p (columns df1) = [k1] \<Longrightarrow>
           k0 < length (columns df) \<Longrightarrow> columns df ! k0 = p \<Longrightarrow> column k1 df1 = column k0 df"
    and "\<And>jd. positions ''date'' (columns df1) = [jd] \<Longrightarrow>
           to_datetime parse
             (column (case filter (\<lambda>i. lower (columns df ! i) = ''date'') [0..<length (columns df)] of
                        [] \<Rightarrow> 0 | k # _ \<Rightarrow> k) df)
           = Inr (column jd df1)"
proof -
  from normalize_date_Inr[OF nd] obtain d j where ld: "lower d = ''date''"
    and ij: "(case filter (\<lambda>i. lower (columns df ! i) = ''date'') [0..<length (columns df)] of
                 [] \<Rightarrow> 0 | k # _ \<Rightarrow> k) = j"
    and t: "to_datetime parse (column j df)
            = Inr (map (\<lambda>r. Datetime (the (parse (column j df) (snd r ! j)))) (rows df))"
    and e0: "df1 = \<lparr>columns = with_label (columns df) ''date'' d,
                    rows = map (\<lambda>r. (fst r, with_column (columns df) ''date'' d
                                        (Datetime (the (parse (column j df) (snd r ! j)))) (snd r)))
                             (rows df)\<rparr>"
    by blast
  define f :: "nat \<times> cell list \<Rightarrow> datetime"
    where "f = (\<lambda>r. the (parse (column j df) (snd r ! j)))"
  have e: "df1 = \<lparr>columns = with_label (columns df) ''date'' d,
                    rows = map (\<lambda>r. (fst r, with_column (columns df) ''date'' d (Datetime (f r)) (snd r)))
                             (rows df)\<rparr>"
    unfolding f_def by (rule e0)
  let ?cs = "columns df"
  let ?cs1 = "with_label ?cs ''date'' d"
  let ?g = "\<lambda>r. with_column ?cs ''date'' d (Datetime (f r)) (snd r)"
  have len: "length (snd r) = length ?cs" if "r \<in> set (rows df)" for r
    using rect that by (simp add: rectangular_def)
  have l1: "length (?g r) = length ?cs1" if "r \<in> set (rows df)" for r
    by (rule length_with_column[OF len[OF that]])
  show "rectangular df1"
    using l1 by (auto simp: rectangular_def e)
  show "\<forall>r \<in> set (rows df1). \<forall>c \<in> set (cells_at ''date'' (columns df1) (snd r)). is_datetime c"
    using cells_at_with_column_same[OF len, of _ "''date''" d]
    by (auto simp: e is_datetime_def)
  show "length (rows df1) = length (rows df)" by (simp add: e)
  show "filter (\<lambda>col. lower col = ''price'') (columns df1)
        = filter (\<lambda>col. lower col = ''price'') (columns df)"
    unfolding e using ld by (simp add: filter_with_label lower_literals)
  show "column k1 df1 = column k0 df"
    if lp: "lower p = ''price''" and k1: "positions p (columns df1) = [k1]"
      and k0: "k0 < length (columns df)" "columns df ! k0 = p" for p k1 k0
  proof -
    have pd: "p \<noteq> ''date''" "p \<noteq> d" using lp ld by (auto simp: lower_literals)
    have "?g r ! k1 = snd r ! k0" if r: "r \<in> set (rows df)" for r
    proof -
      have k1': "positions p ?cs1 = [k1]" using k1 by (simp add: e)
      have "cells_at p ?cs1 (?g r) = [?g r ! k1]"
        by (rule cells_at_single[OF k1' l1[OF r]])
      moreover have "cells_at p ?cs1 (?g r) = cells_at p ?cs (snd r)"
        by (rule cells_at_with_column_other[OF len[OF r] pd])
      moreover have "snd r ! k0 \<in> set (cells_at p ?cs (snd r))"
        by (rule nth_in_cells_at[OF len[OF r] k0])
      ultimately show ?thesis by simp
    qed
    then show ?thesis
      by (simp add: column_def e comp_def)
  qed
  show "to_datetime parse
          (column (case filter (\<lambda>i. lower (columns df ! i) = ''date'') [0..<length (columns df)] of
                     [] \<Rightarrow> 0 | k # _ \<Rightarrow> k) df)
        = Inr (column jd df1)"
    if jd: "positions ''date'' (columns df1) = [jd]" for jd
  proof -
    have jd': "positions ''date'' ?cs1 = [jd]" using jd by (simp add: e)
    from positions_single[OF jd'] have j1: "jd < length ?cs1" "?cs1 ! jd = ''date''" by simp_all
    have "?g r ! jd = Datetime (f r)" if r: "r \<in> set (rows df)" for r
    proof -
      have "?g r ! jd \<in> set (cells_at ''date'' ?cs1 (?g r))"
        by (rule nth_in_cells_at[OF l1[OF r] j1])
      also have "\<dots> = {Datetime (f r)}"
        by (rule cells_at_with_column_same[OF len[OF r]])
      finally show ?thesis by simp
    qed
    then have "column jd df1 = map (\<lambda>r. Datetime (f r)) (rows df)"
      by (simp add: column_def e comp_def)
    with t show ?thesis unfolding ij by (simp add: f_def)
  qed
qed

lemma column_strip_columns: "column k (strip_columns df) = column k df"
  by (simp add: column_def strip_columns_def)

lemma rows_strip_columns: "rows (strip_columns df) = rows df"
  by (simp add: strip_columns_def)

lemma price_source_Some:
  assumes "price_source df0 = Some k"
  shows "k < length (columns df0)
         \<and> (\<exists>ps. filter (\<lambda>col. lower col = ''price'') (map strip (columns df0))
                  = strip (columns df0 ! k) # ps)"
proof -
  let ?cs = "map strip (columns df0)"
  let ?P = "\<lambda>col. lower col = ''price''"
  from assms obtain ks where
    f: "filter (\<lambda>j. lower (strip (columns df0 ! j)) = ''price'') [0..<length (columns df0)] = k # ks"
    by (auto simp: price_source_def split: list.splits)
  have "k \<in> set (filter (\<lambda>j. lower (strip (columns df0 ! j)) = ''price'') [0..<length (columns df0)])"
    unfolding f by simp
  then have k: "k < length (columns df0)" and pk: "?P (strip (columns df0 ! k))" by simp_all
  have f': "filter (\<lambda>j. ?P (?cs ! j)) [0..<length ?cs] = k # ks"
  proof -
    have "filter (\<lambda>j. ?P (?cs ! j)) [0..<length ?cs]
          = filter (\<lambda>j. lower (strip (columns df0 ! j)) = ''price'') [0..<length (columns df0)]"
      by (rule filter_cong) simp_all
    with f show ?thesis by simp
  qed
  have "?cs ! k \<in> set (filter ?P ?cs)" using k pk by simp
  then obtain p ps where c: "filter ?P ?cs = p # ps" by (cases "filter ?P ?cs") auto
  from first_position[of ?P ?cs p ps k ks, OF c f'] have "?cs ! k = p" .
  with k c show ?thesis by simp
qed

lemma mset_column_sorted:
  "mset (column jp (reset_index (df\<lparr>rows := sort_key f (rows df)\<rparr>))) = mset (column jp df)"
proof -
  have "map (\<lambda>r. (\<lambda>c. c ! jp) (snd r)) (zip [0..<length (rows df)] (map snd (sort_key f (rows df))))
        = map (\<lambda>c. c ! jp) (map snd (sort_key f (rows df)))"
    by (rule map_snd_fun_zip) simp
  then have "column jp (reset_index (df\<lparr>rows := sort_key f (rows df)\<rparr>))
        = map (\<lambda>c. c ! jp) (map snd (sort_key f (rows df)))"
    by (simp add: column_def reset_index_def)
  also have "mset \<dots> = image_mset (\<lambda>r. snd r ! jp) (mset (sort_key f (rows df)))"
    by (simp add: comp_def)
  also have "\<dots> = mset (column jp df)"
    by (simp add: column_def)
  finally show ?thesis .
qed

lemma zip_columns:
  "zip (column a df) (column b df) = map (\<lambda>r. (snd r ! a, snd r ! b)) (rows df)"
  by (simp add: column_def zip_map_map zip_same_conv_map comp_def)

lemma mset_pairs_sorted:
  "mset (zip (column a (reset_index (df\<lparr>rows := sort_key f (rows df)\<rparr>)))
             (column b (reset_index (df\<lparr>rows := sort_key f (rows df)\<rparr>))))
   = mset (zip (column a df) (column b df))"
proof -
  have "map (\<lambda>r. (\<lambda>c. (c ! a, c ! b)) (snd r))
          (zip [0..<length (rows df)] (map snd (sort_key f (rows df))))
        = map (\<lambda>c. (c ! a, c ! b)) (map snd (sort_key f (rows df)))"
    by (rule map_snd_fun_zip) simp
  then have "zip (column a (reset_index (df\<lparr>rows := sort_key f (rows df)\<rparr>)))
                 (column b (reset_index (df\<lparr>rows := sort_key f (rows df)\<rparr>)))
        = map (\<lambda>c. (c ! a, c ! b)) (map snd (sort_key f (rows df)))"
    unfolding zip_columns by (simp add: reset_index_def)
  also have "mset \<dots> = image_mset (\<lambda>r. (snd r ! a, snd r ! b)) (mset (sort_key f (rows df)))"
    by (simp add: comp_def)
  also have "\<dots> = mset (zip (column a df) (column b df))"
    unfolding zip_columns by simp
  finally show ?thesis .
qed

lemma date_source_strip:
  "(case filter (\<lambda>i. lower (columns (strip_columns df0) ! i) = ''date'')
           [0..<length (columns (strip_columns df0))] of
      [] \<Rightarrow> 0 | k # _ \<Rightarrow> k)
   = date_source df0"
proof -
  have "filter (\<lambda>i. lower (map strip (columns df0) ! i) = ''date'') [0..<length (columns df0)]
        = filter (\<lambda>i. lower (strip (columns df0 ! i)) = ''date'') [0..<length (columns df0)]"
    by (rule filter_cong) simp_all
  then show ?thesis by (simp add: date_source_def columns_strip_columns)
qed

lemma length_rows_sorted:
  "length (rows (reset_index (df\<lparr>rows := sort_key f (rows df)\<rparr>))) = length (rows df)"
  by (simp add: reset_index_def)

lemma columns_sorted:
  "columns (reset_index (df\<lparr>rows := sort_key f (rows df)\<rparr>)) = columns df"
  by (simp add: reset_index_def)

lemma process_frame_Inr:
  assumes "normalize_date parse (strip_columns df0) = Inr df1"
    and "normalize_price coerce df1 = Inr df2"
    and "date_position df2 = Inr j"
  shows "process_frame parse coerce df0
         = Inr (reset_index (df2\<lparr>rows := sort_key (\<lambda>r. datetime_key (row_date j r)) (rows df2)\<rparr>))"
  using assms by (simp add: process_frame_def bind_Inr sort_values_date_def)

lemma load_Inr:
  assumes "file_path \<noteq> []" and "fs file_path = Some (Inr df0)"
    and "process_frame parse coerce df0 = Inr df"
  shows "load_and_process_data parse coerce fs file_path = (None, Some df)"
  using assms by (simp add: load_and_process_data_def bind_Inr domI)

text \<open>
  Claim C6. Take a file that \<^verbatim>\<open>read_csv\<close> reads as the frame \<open>df0\<close> and that loads when its
  price cells are read by some coercion \<open>coerce'\<close>, for instance one under which every cell
  is a number. Then it loads under every coercion \<open>coerce\<close>, whichever cells that one
  cannot read: no error is shown, and the frame returned has as many rows as the file and
  the same columns. When a price header was detected, every row of the file is there with
  its date and its price: the pairs of a date and a price of the result are the pairs of
  the date read from a row of the file and of the number read from the price cell of that
  row, or \<open>NaN\<close> where no number could be read.
\<close>

theorem price_coercion_never_fails_load:
  assumes rect: "rectangular df0"
    and src_file: "fs file_path = Some (Inr df0)"
    and loads: "load_and_process_data parse coerce' fs file_path = (e, Some df')"
  shows "\<exists>df ds. load_and_process_data parse coerce fs file_path = (None, Some df)
           \<and> length (rows df) = length (rows df0)
           \<and> columns df = columns df'
           \<and> to_datetime parse (column (date_source df0) df0) = Inr ds
           \<and> (\<forall>k jd jp. price_source df0 = Some k
                  \<and> jd < length (columns df) \<and> columns df ! jd = ''date''
                  \<and> jp < length (columns df) \<and> columns df ! jp = ''price''
                \<longrightarrow> mset (zip (column jd df) (column jp df))
                    = mset (zip ds (map (coerced coerce) (column k df0))))"
proof -
  from load_Some[OF loads] src_file have path: "file_path \<noteq> []"
    and pf': "process_frame parse coerce' df0 = Inr df'" by auto
  from process_frame_stages[OF pf'] obtain df1 df2' j where
    nd: "normalize_date parse (strip_columns df0) = Inr df1"
    and np': "normalize_price coerce' df1 = Inr df2'"
    and dp': "date_position df2' = Inr j"
    and e': "df' = reset_index (df2'\<lparr>rows := sort_key (\<lambda>r. datetime_key (row_date j r)) (rows df2')\<rparr>)"
    by blast
  note D = date_stage[OF rectangular_strip_columns[OF rect] nd]
  from price_stage[OF D(1) D(2) np' dp', of coerce] obtain df2 jd1 where
    np: "normalize_price coerce df1 = Inr df2"
    and cols: "columns df2 = columns df2'"
    and dp: "date_position df2 = Inr j"
    and len: "length (rows df2) = length (rows df1)"
    and jd1: "positions ''date'' (columns df1) = [jd1]"
    and keep: "column j df2 = column jd1 df1"
    and price: "\<And>p ps k jp. filter (\<lambda>col. lower col = ''price'') (columns df1) = p # ps \<Longrightarrow>
                  positions p (columns df1) = [k] \<Longrightarrow> jp < length (columns df2) \<Longrightarrow>
                  columns df2 ! jp = ''price'' \<Longrightarrow>
                  column jp df2 = map (coerced coerce) (column k df1)"
    by blast
  let ?df = "reset_index (df2\<lparr>rows := sort_key (\<lambda>r. datetime_key (row_date j r)) (rows df2)\<rparr>)"
  let ?ds = "column jd1 df1"
  have 1: "load_and_process_data parse coerce fs file_path = (None, Some ?df)"
    by (rule load_Inr[where fs=fs and file_path=file_path, OF path src_file process_frame_Inr[OF nd np dp]])
  have 2: "length (rows ?df) = length (rows df0)"
    unfolding length_rows_sorted len D(3) rows_strip_columns ..
  have 3: "columns ?df = columns df'"
    unfolding e' columns_sorted by (rule cols)
  have 4: "to_datetime parse (column (date_source df0) df0) = Inr ?ds"
    using D(6)[OF jd1] unfolding date_source_strip column_strip_columns .
  have 5: "mset (zip (column jd ?df) (column jp ?df))
           = mset (zip ?ds (map (coerced coerce) (column k df0)))"
    if src: "price_source df0 = Some k"
      and jd: "jd < length (columns ?df)" "columns ?df ! jd = ''date''"
      and jp: "jp < length (columns ?df)" "columns ?df ! jp = ''price''" for k jd jp
  proof -
    from price_source_Some[OF src] obtain ps where k: "k < length (columns df0)"
      and f0: "filter (\<lambda>col. lower col = ''price'') (map strip (columns df0))
               = strip (columns df0 ! k) # ps"
      by blast
    let ?p = "strip (columns df0 ! k)"
    have f1: "filter (\<lambda>col. lower col = ''price'') (columns df1) = ?p # ps"
      unfolding D(4) columns_strip_columns by (rule f0)
    from filter_Cons_mem[OF f1] have lp: "lower ?p = ''price''" by simp
    from np' f1 obtain k1 where k1: "positions ?p (columns df1) = [k1]"
      by (auto simp: normalize_price_cases split: list.splits)
    have k0: "k < length (columns (strip_columns df0))" "columns (strip_columns df0) ! k = ?p"
      using k by (simp_all add: columns_strip_columns)
    from jp have jp2: "jp < length (columns df2)" "columns df2 ! jp = ''price''"
      by (simp_all add: columns_sorted)
    from jd have "jd \<in> set (positions ''date'' (columns df2))"
      by (simp add: columns_sorted positions_def)
    with date_position_positions[OF dp] have jdj: "jd = j" by simp
    have "column jp df2 = map (coerced coerce) (column k1 df1)"
      by (rule price[OF f1 k1 jp2])
    also have "column k1 df1 = column k (strip_columns df0)"
      by (rule D(5)[OF lp k1 k0])
    also have "\<dots> = column k df0" by (rule column_strip_columns)
    finally have "zip (column j df2) (column jp df2)
                  = zip ?ds (map (coerced coerce) (column k df0))"
      unfolding keep by simp
    then show ?thesis unfolding mset_pairs_sorted jdj by simp
  qed
  from 1 2 3 4 5 show ?thesis by blast
qed

lemma rectangular_copper: "rectangular copper_csv"
  by (simp add: rectangular_def copper_csv_def)

lemma price_source_copper: "price_source copper_csv = Some (Suc 0)"
  by (simp add: price_source_def copper_csv_def strip_def is_space_def lower_literals upt_rec)

lemma normalize_price_copper_flat:
  "normalize_price (\<lambda>c. Some 0) copper_dated
   = Inr \<lparr>columns = [''date'', ''price''],
          rows = map (\<lambda>r. (fst r, [snd r ! 0, Number 0])) (rows copper_priced)\<rparr>"
  unfolding normalize_price_def
  apply (simp add: copper_dated_def lower_literals positions_def)
  apply (simp add: setitem_def drop_columns_def set_cells_def column_def to_numeric_def coerced_def
      copper_priced_def)
  done

lemma date_position_copper_flat:
  "date_position \<lparr>columns = [''date'', ''price''],
          rows = map (\<lambda>r. (fst r, [snd r ! 0, Number 0])) (rows copper_priced)\<rparr> = Inr 0"
  by (simp add: date_position_def positions_def copper_priced_def is_datetime_def)

lemma sort_reset_copper_flat:
  "reset_index (\<lparr>columns = [''date'', ''price''],
          rows = map (\<lambda>r. (fst r, [snd r ! 0, Number 0])) (rows copper_priced)\<rparr>
        \<lparr>rows := sort_key (\<lambda>r. datetime_key (row_date 0 r))
           (rows \<lparr>columns = [''date'', ''price''],
              rows = map (\<lambda>r. (fst r, [snd r ! 0, Number 0])) (rows copper_priced)\<rparr>)\<rparr>)
   = copper_flat"
  by (simp add: reset_index_def copper_priced_def copper_flat_def sort_key_def row_date_def
      cell_datetime_def datetime_key_def ts_key_def)

lemma process_frame_copper_flat:
  "process_frame example_parse (\<lambda>c. Some 0) copper_csv = Inr copper_flat"
  unfolding process_frame_def normalize_date_copper bind_Inr normalize_price_copper_flat
    sort_values_date_def date_position_copper_flat
  by (rule arg_cong[where f=Inr], rule sort_reset_copper_flat)

lemma load_copper_flat:
  "load_and_process_data example_parse (\<lambda>c. Some 0) example_files ''LME_Copper.csv''
   = (None, Some copper_flat)"
  by (simp add: load_and_process_data_def example_files_def bind_Inr process_frame_copper_flat)

lemma files_copper: "example_files ''LME_Copper.csv'' = Some (Inr copper_csv)"
  by (simp add: example_files_def)

lemma coerce_copper:
  "map (coerced example_coerce) (column (Suc 0) copper_csv)
   = [Number 8402, Number 8430, Number 8421, NaN, Number 8433, Number 8377, Number 8350,
      Number 8365, Number 8410, Number 8390]"
  by (simp add: column_def copper_csv_def coerced_def example_coerce_def)

lemma date_source_copper: "date_source copper_csv = 0"
  by (simp add: date_source_def copper_csv_def strip_def is_space_def lower_literals upt_rec)

lemma dates_copper:
  "to_datetime example_parse (column 0 copper_csv)
   = Inr (map Datetime [Stamp (Timestamp 2024 1 5 0), Stamp (Timestamp 2024 1 2 0),
        Stamp (Timestamp 2024 1 3 0), Stamp (Timestamp 2024 1 4 0), Stamp (Timestamp 2024 2 1 0),
        Stamp (Timestamp 2024 1 8 0), Stamp (Timestamp 2024 1 9 0), Stamp (Timestamp 2024 1 10 0),
        Stamp (Timestamp 2024 1 11 0), Stamp (Timestamp 2024 1 12 0)])"
  by (simp add: to_datetime_def column_def copper_csv_def example_parse_def)

theorem price_coercion_never_fails_load_witness:
  "rectangular copper_csv
   \<and> example_files ''LME_Copper.csv'' = Some (Inr copper_csv)
   \<and> load_and_process_data example_parse (\<lambda>c. Some 0) example_files ''LME_Copper.csv''
       = (None, Some copper_flat)
   \<and> example_coerce (Text ''n.a.'') = None
   \<and> price_source copper_csv = Some (Suc 0)
   \<and> load_and_process_data example_parse example_coerce example_files ''LME_Copper.csv''
       = (None, Some copper_loaded)
   \<and> length (rows copper_loaded) = 10
   \<and> columns copper_loaded = columns copper_flat
   \<and> (3, [Text ''04/01/2024'', Text ''n.a.'']) \<in> set (rows copper_csv)
   \<and> (2, [Datetime (Stamp (Timestamp 2024 1 4 0)), NaN]) \<in> set (rows copper_loaded)
   \<and> mset (zip (column 0 copper_loaded) (column (Suc 0) copper_loaded))
     = mset [(Datetime (Stamp (Timestamp 2024 1 5 0)), Number 8402),
             (Datetime (Stamp (Timestamp 2024 1 2 0)), Number 8430),
             (Datetime (Stamp (Timestamp 2024 1 3 0)), Number 8421),
             (Datetime (Stamp (Timestamp 2024 1 4 0)), NaN),
             (Datetime (Stamp (Timestamp 2024 2 1 0)), Number 8433),
             (Datetime (Stamp (Timestamp 2024 1 8 0)), Number 8377),
             (Datetime (Stamp (Timestamp 2024 1 9 0)), Number 8350),
             (Datetime (Stamp (Timestamp 2024 1 10 0)), Number 8365),
             (Datetime (Stamp (Timestamp 2024 1 11 0)), Number 8410),
             (Datetime (Stamp (Timestamp 2024 1 12 0)), Number 8390)]"
proof -
  have na: "example_coerce (Text ''n.a.'') = None"
    by (simp add: example_coerce_def)
  have row0: "(3, [Text ''04/01/2024'', Text ''n.a.'']) \<in> set (rows copper_csv)"
    by (simp add: copper_csv_def)
  have row: "(2, [Datetime (Stamp (Timestamp 2024 1 4 0)), NaN]) \<in> set (rows copper_loaded)"
    by (simp add: copper_loaded_def)
  have n: "length (rows copper_csv) = 10"
    by (simp add: copper_csv_def)
  have jd: "0 < length (columns copper_loaded)" "columns copper_loaded ! 0 = ''date''"
    by (simp_all add: copper_loaded_def)
  have jp: "Suc 0 < length (columns copper_loaded)" "columns copper_loaded ! Suc 0 = ''price''"
    by (simp_all add: copper_loaded_def)
  from price_coercion_never_fails_load[OF rectangular_copper files_copper load_copper_flat,
      of example_coerce]
  obtain df ds where l: "load_and_process_data example_parse example_coerce example_files
        ''LME_Copper.csv'' = (None, Some df)"
    and r: "length (rows df) = length (rows copper_csv)"
    and c: "columns df = columns copper_flat"
    and t: "to_datetime example_parse (column (date_source copper_csv) copper_csv) = Inr ds"
    and p: "\<And>k jd jp. price_source copper_csv = Some k \<Longrightarrow>
              jd < length (columns df) \<Longrightarrow> columns df ! jd = ''date'' \<Longrightarrow>
              jp < length (columns df) \<Longrightarrow> columns df ! jp = ''price'' \<Longrightarrow>
              mset (zip (column jd df) (column jp df))
              = mset (zip ds (map (coerced example_coerce) (column k copper_csv)))"
    by blast
  from l have d: "df = copper_loaded" unfolding load_copper by simp
  from t have ds: "ds = map Datetime [Stamp (Timestamp 2024 1 5 0), Stamp (Timestamp 2024 1 2 0),
        Stamp (Timestamp 2024 1 3 0), Stamp (Timestamp 2024 1 4 0), Stamp (Timestamp 2024 2 1 0),
        Stamp (Timestamp 2024 1 8 0), Stamp (Timestamp 2024 1 9 0), Stamp (Timestamp 2024 1 10 0),
        Stamp (Timestamp 2024 1 11 0), Stamp (Timestamp 2024 1 12 0)]"
    unfolding date_source_copper dates_copper by simp
  have "mset (zip (column 0 copper_loaded) (column (Suc 0) copper_loaded))
        = mset (zip ds (map (coerced example_coerce) (column (Suc 0) copper_csv)))"
    using p[OF price_source_copper, of 0 "Suc 0"] jd jp unfolding d by blast
  then have m: "mset (zip (column 0 copper_loaded) (column (Suc 0) copper_loaded))
     = mset [(Datetime (Stamp (Timestamp 2024 1 5 0)), Number 8402),
             (Datetime (Stamp (Timestamp 2024 1 2 0)), Number 8430),
             (Datetime (Stamp (Timestamp 2024 1 3 0)), Number 8421),
             (Datetime (Stamp (Timestamp 2024 1 4 0)), NaN),
             (Datetime (Stamp (Timestamp 2024 2 1 0)), Number 8433),
             (Datetime (Stamp (Timestamp 2024 1 8 0)), Number 8377),
             (Datetime (Stamp (Timestamp 2024 1 9 0)), Number 8350),
             (Datetime (Stamp (Timestamp 2024 1 10 0)), Number 8365),
             (Datetime (Stamp (Timestamp 2024 1 11 0)), Number 8410),
             (Datetime (Stamp (Timestamp 2024 1 12 0)), Number 8390)]"
    unfolding coerce_copper ds by simp
  from rectangular_copper files_copper load_copper_flat na price_source_copper load_copper
    r[unfolded d n] c[unfolded d] row0 row m
  show ?thesis by blast
qed

end
